theory Spec2Isabelle
  imports Main "HOL-Library.Sublist"
begin

section \<open>devc\_to\_docker: the capture-and-fold pipeline\<close>

text \<open>
  A shallow embedding of \<^verbatim>\<open>src/doehyunbaek/devc_to_docker.py\<close>. Pure helpers are HOL
  functions. The effectful functions take the history of effects performed so far (a
  list of events) and return their result together with the extended history; what the
  container engine and the host file system answer is read from a \<open>world\<close> record of
  functions of that history. Exceptions are values of the type \<open>error\<close>.

  Python strings are modelled as \<open>string\<close>, one \<open>char\<close> per code point (code points
  up to 255). Leading underscores of the source's names are dropped.
\<close>

subsection \<open>pathlib paths (POSIX flavour)\<close>

text \<open>
  A \<^verbatim>\<open>pathlib.Path\<close> on POSIX is its root (empty, \<^verbatim>\<open>/\<close> or \<^verbatim>\<open>//\<close>) and its
  segments; the drive is always empty. Parsing splits at \<^verbatim>\<open>/\<close> and drops empty
  segments and \<^verbatim>\<open>.\<close> segments; exactly two leading slashes are kept as the root
  \<^verbatim>\<open>//\<close>, one or three and more give the root \<^verbatim>\<open>/\<close>.
\<close>

record path =
  root :: string
  segments :: "string list"

fun split_slash :: "string \<Rightarrow> string list" where
  "split_slash [] = [[]]"
| "split_slash (c # cs) =
     (if c = CHR ''/'' then [] # split_slash cs
      else (case split_slash cs of
              [] \<Rightarrow> [[c]]
            | s # ss \<Rightarrow> (c # s) # ss))"

definition parse_root :: "string \<Rightarrow> string" where
  "parse_root s =
     (if take 1 s \<noteq> ''/'' then ''''
      else if take 1 (drop 1 s) \<noteq> ''/'' \<or> take 1 (drop 2 s) = ''/'' then ''/''
      else take 2 s)"

definition Path :: "string \<Rightarrow> path" where
  "Path s = \<lparr>root = parse_root s,
             segments = filter (\<lambda>x. x \<noteq> '''' \<and> x \<noteq> ''.'') (split_slash s)\<rparr>"

definition is_absolute :: "path \<Rightarrow> bool" where
  "is_absolute p = (root p \<noteq> '''')"

definition parts :: "path \<Rightarrow> string list" where
  "parts p = (if root p \<noteq> '''' then [root p] else []) @ segments p"

definition truediv :: "path \<Rightarrow> path \<Rightarrow> path" where
  "truediv p q =
     (if root q \<noteq> '''' then q
      else \<lparr>root = root p, segments = segments p @ segments q\<rparr>)"

text \<open>\<^verbatim>\<open>Path(*parts)\<close>: each argument is parsed and joined to the ones before it.\<close>

definition Path_of_parts :: "string list \<Rightarrow> path" where
  "Path_of_parts ps = foldl truediv (Path '''') (map Path ps)"

definition parent :: "path \<Rightarrow> path" where
  "parent p = (if segments p = [] then p else p\<lparr>segments := butlast (segments p)\<rparr>)"

fun join_slash :: "string list \<Rightarrow> string" where
  "join_slash [] = ''''"
| "join_slash [s] = s"
| "join_slash (s # t # ss) = s @ ''/'' @ join_slash (t # ss)"

text \<open>\<^verbatim>\<open>str(p)\<close> and \<^verbatim>\<open>p.as_posix()\<close>; the empty path prints as a dot.\<close>

definition as_posix :: "path \<Rightarrow> string" where
  "as_posix p =
     (if root p = '''' \<and> segments p = [] then ''.''
      else root p @ join_slash (segments p))"

text \<open>
  \<^verbatim>\<open>pathlib.PurePath\<close> defines neither \<^verbatim>\<open>__bool__\<close> nor \<^verbatim>\<open>__len__\<close>, so the truth
  value of every path object is true, the one of \<^verbatim>\<open>Path("")\<close> included.
\<close>

definition path_bool :: "path \<Rightarrow> bool" where
  "path_bool p = True"

text \<open>The paths that parsing produces.\<close>

definition wf_segment :: "string \<Rightarrow> bool" where
  "wf_segment s = (s \<noteq> '''' \<and> s \<noteq> ''.'' \<and> CHR ''/'' \<notin> set s)"

definition wf_path :: "path \<Rightarrow> bool" where
  "wf_path p = ((root p = '''' \<or> root p = ''/'' \<or> root p = ''//'') \<and> list_all wf_segment (segments p))"

subsection \<open>Data model\<close>

record BindMount =
  source :: path
  destination :: path

record CopySpec =
  destination :: path
  host_path :: path

record DevcToDockerResult =
  container_id :: string
  final_image :: string
  intermediate_image :: string
  temp_dir :: path
  copied_mounts :: "CopySpec list"

text \<open>
  The inspected metadata, with the fields the code reads. A field is \<open>None\<close> when the
  key is absent from the dictionary (for \<open>Entrypoint\<close> and \<open>Cmd\<close> also when it is
  \<^verbatim>\<open>null\<close>, which \<^verbatim>\<open>dict.get\<close> returns as \<^verbatim>\<open>None\<close> as well).
\<close>

record mount =
  Type :: "string option"
  Source :: "string option"
  Destination :: "string option"

record config =
  Entrypoint :: "string list option"
  Cmd :: "string list option"
  WorkingDir :: "string option"
  User :: "string option"

record inspect_info =
  Name :: "string option"
  Mounts :: "mount list option"
  Config :: "config option"

text \<open>
  The exceptions of the pipeline. The source raises one class, \<^verbatim>\<open>DevcToDockerError\<close>,
  with a message per raise site; each site is a constructor here, named as in the error
  taxonomy of the specification. \<open>CalledProcessError\<close> is what \<^verbatim>\<open>subprocess.run\<close>
  raises for a non-zero exit status (\<^verbatim>\<open>check=True\<close>), with the command line;
  \<open>OSError\<close> is a failed file system call.
\<close>

datatype error =
    EngineUnavailable
  | NotFound string
  | NoBindMounts string
  | SourceMissing path
  | InvalidDestination
  | RestoreFailed string string
  | CalledProcessError "string list"
  | OSError

subsection \<open>Mount extractor\<close>

definition get_default :: "'a option \<Rightarrow> 'a \<Rightarrow> 'a" where
  "get_default v d = (case v of None \<Rightarrow> d | Some x \<Rightarrow> x)"

fun extract_bind_mounts :: "mount list \<Rightarrow> BindMount list" where
  "extract_bind_mounts [] = []"
| "extract_bind_mounts (m # mounts) =
     (if Type m \<noteq> Some ''bind'' then extract_bind_mounts mounts
      else
        let source = Path (get_default (Source m) '''');
            destination = Path (get_default (Destination m) '''')
        in if \<not> path_bool source then extract_bind_mounts mounts
           else \<lparr>source = source, BindMount.destination = destination\<rparr>
                  # extract_bind_mounts mounts)"

subsection \<open>Naming\<close>

text \<open>The character class \<^verbatim>\<open>[a-zA-Z0-9_.-]\<close>.\<close>

definition name_char :: "char \<Rightarrow> bool" where
  "name_char c =
     (let n = (of_char c :: nat)
      in (97 \<le> n \<and> n \<le> 122) \<or> (65 \<le> n \<and> n \<le> 90) \<or> (48 \<le> n \<and> n \<le> 57)
         \<or> c = CHR ''_'' \<or> c = CHR ''.'' \<or> c = CHR ''-'')"

definition lstrip :: "string \<Rightarrow> string \<Rightarrow> string" where
  "lstrip chars s = dropWhile (\<lambda>c. c \<in> set chars) s"

definition rstrip :: "string \<Rightarrow> string \<Rightarrow> string" where
  "rstrip chars s = rev (dropWhile (\<lambda>c. c \<in> set chars) (rev s))"

definition strip :: "string \<Rightarrow> string \<Rightarrow> string" where
  "strip chars s = rstrip chars (lstrip chars s)"

text \<open>\<^verbatim>\<open>x or d\<close> on strings: the empty string is false.\<close>

definition str_or :: "string \<Rightarrow> string \<Rightarrow> string" where
  "str_or x d = (if x = '''' then d else x)"

definition sanitize_name :: "string \<Rightarrow> string" where
  "sanitize_name name =
     (let sanitized = strip ''-.'' (map (\<lambda>c. if name_char c then c else CHR ''-'') name)
      in str_or sanitized ''container'')"

text \<open>Lines 212 to 220 and 237 to 239 of \<^verbatim>\<open>devc_to_docker\<close>: the derived identifiers.\<close>

definition container_name :: "inspect_info \<Rightarrow> string \<Rightarrow> string" where
  "container_name info cid = str_or (lstrip ''/'' (get_default (Name info) '''')) cid"

definition default_output_image :: "string option \<Rightarrow> string \<Rightarrow> string \<Rightarrow> string" where
  "default_output_image output_tag sanitized_name timestamp =
     (case output_tag of
        None \<Rightarrow> ''devc_to_docker/'' @ sanitized_name @ '':'' @ timestamp
      | Some tag \<Rightarrow> tag)"

definition default_intermediate_image :: "string option \<Rightarrow> string \<Rightarrow> string" where
  "default_intermediate_image intermediate_tag output_image =
     (case intermediate_tag of
        None \<Rightarrow> output_image @ ''-stage''
      | Some tag \<Rightarrow> tag)"

definition temp_container_name :: "string \<Rightarrow> string \<Rightarrow> string" where
  "temp_container_name sanitized_name timestamp =
     (let n = ''devc-to-docker-'' @ sanitized_name @ ''-'' @ timestamp
      in if length n > 60 then take 60 n else n)"

subsection \<open>Metadata translator\<close>

text \<open>
  \<^verbatim>\<open>json.dumps\<close> on a list of strings, with the default separators and
  \<^verbatim>\<open>ensure_ascii\<close>: quote and backslash are escaped, the control characters with a
  short form use it, and every other character outside the range from space to tilde is
  written as \<^verbatim>\<open>\u00xx\<close> in lower-case hexadecimal.
\<close>

definition hex_digit :: "nat \<Rightarrow> char" where
  "hex_digit n = (if n < 10 then char_of (48 + n) else char_of (87 + n))"

definition json_escape :: "char \<Rightarrow> string" where
  "json_escape c =
     (let n = (of_char c :: nat)
      in if c = CHR 0x22 then [CHR 0x5C, CHR 0x22]
         else if c = CHR 0x5C then [CHR 0x5C, CHR 0x5C]
         else if n = 10 then [CHR 0x5C, CHR ''n'']
         else if n = 13 then [CHR 0x5C, CHR ''r'']
         else if n = 9 then [CHR 0x5C, CHR ''t'']
         else if n = 8 then [CHR 0x5C, CHR ''b'']
         else if n = 12 then [CHR 0x5C, CHR ''f'']
         else if 32 \<le> n \<and> n \<le> 126 then [c]
         else [CHR 0x5C, CHR ''u'', CHR ''0'', CHR ''0'', hex_digit (n div 16), hex_digit (n mod 16)])"

definition json_string :: "string \<Rightarrow> string" where
  "json_string s = [CHR 0x22] @ concat (map json_escape s) @ [CHR 0x22]"

fun join_comma :: "string list \<Rightarrow> string" where
  "join_comma [] = ''''"
| "join_comma [s] = s"
| "join_comma (s # t # ss) = s @ '', '' @ join_comma (t # ss)"

definition json_dumps :: "string list \<Rightarrow> string" where
  "json_dumps xs = ''['' @ join_comma (map json_string xs) @ '']''"

text \<open>Truth values: \<^verbatim>\<open>None\<close>, the empty list and the empty string are false.\<close>

definition truthy :: "'a list option \<Rightarrow> bool" where
  "truthy v = (case v of None \<Rightarrow> False | Some x \<Rightarrow> x \<noteq> [])"

definition build_commit_changes :: "config \<Rightarrow> string list" where
  "build_commit_changes cfg =
     (let changes = [];
          entrypoint = Entrypoint cfg;
          cmd = Cmd cfg;
          changes = (if truthy entrypoint
                     then changes @ [''ENTRYPOINT '' @ json_dumps (the entrypoint)]
                     else changes @ [''ENTRYPOINT []'']);
          changes = (if truthy cmd
                     then changes @ [''CMD '' @ json_dumps (the cmd)]
                     else changes @ [''CMD []'']);
          work_dir = WorkingDir cfg;
          changes = (if truthy work_dir
                     then changes @ [''WORKDIR '' @ the work_dir]
                     else changes);
          user = User cfg;
          changes = (if truthy user
                     then changes @ [''USER '' @ the user]
                     else changes)
      in changes)"

text \<open>The empty dictionary, the default of \<^verbatim>\<open>inspect_info.get("Config", {})\<close>.\<close>

definition empty_config :: config where
  "empty_config = \<lparr>Entrypoint = None, Cmd = None, WorkingDir = None, User = None\<rparr>"

subsection \<open>Effects: the engine, the file system and the history\<close>

text \<open>
  An event is one effect the program performs, with its outcome: a \<^verbatim>\<open>docker\<close>
  command (the arguments after \<^verbatim>\<open>docker\<close>, and whether it exited with status zero), a
  mutation of the host file system (and whether it succeeded), or a printed warning.
  Progress messages and the echo of each command are not recorded. A warning is recorded
  with its text up to the rendering of the exception.
\<close>

datatype fsop =
    Mkdir path
  | Mkdtemp path
  | Rmtree path
  | Unlink path
  | Copytree path path
  | Copy2 path path

datatype event =
    Docker "string list" bool
  | Fs fsop bool
  | Warning string

text \<open>
  What the surroundings answer. \<open>docker_succeeds\<close>, \<open>path_exists\<close>, \<open>path_is_dir\<close>
  and \<open>fs_succeeds\<close> depend on the history, so that the same question can get different
  answers at different times. \<open>inspect_stdout\<close> is the decoded output of
  \<^verbatim>\<open>docker inspect\<close>, \<open>utcnow\<close> the formatted time stamp, \<open>mkdtemp\<close> the name that
  \<^verbatim>\<open>tempfile.mkdtemp\<close> picks for a prefix and a directory.
\<close>

record world =
  which_docker :: bool
  docker_succeeds :: "event list \<Rightarrow> string list \<Rightarrow> bool"
  inspect_stdout :: "string \<Rightarrow> inspect_info list"
  utcnow :: string
  gettempdir :: string
  resolve :: "path \<Rightarrow> path"
  mkdtemp :: "string \<Rightarrow> string \<Rightarrow> string"
  path_exists :: "event list \<Rightarrow> path \<Rightarrow> bool"
  path_is_dir :: "event list \<Rightarrow> path \<Rightarrow> bool"
  fs_succeeds :: "event list \<Rightarrow> fsop \<Rightarrow> bool"

definition ensure_docker_available :: "world \<Rightarrow> error + unit" where
  "ensure_docker_available w = (if \<not> which_docker w then Inl EngineUnavailable else Inr ())"

definition run_docker :: "world \<Rightarrow> event list \<Rightarrow> string list \<Rightarrow> (error + unit) \<times> event list" where
  "run_docker w tr args =
     (let ok = docker_succeeds w tr args
      in (if ok then Inr () else Inl (CalledProcessError (''docker'' # args)),
          tr @ [Docker args ok]))"

definition fs :: "world \<Rightarrow> event list \<Rightarrow> fsop \<Rightarrow> (error + unit) \<times> event list" where
  "fs w tr op =
     (let ok = fs_succeeds w tr op
      in (if ok then Inr () else Inl OSError, tr @ [Fs op ok]))"

text \<open>\<^verbatim>\<open>shutil.rmtree(p, ignore_errors=True)\<close> never raises.\<close>

definition rmtree_ignore_errors :: "world \<Rightarrow> event list \<Rightarrow> path \<Rightarrow> event list" where
  "rmtree_ignore_errors w tr p = snd (fs w tr (Rmtree p))"

definition inspect_container :: "world \<Rightarrow> event list \<Rightarrow> string \<Rightarrow> (error + inspect_info) \<times> event list" where
  "inspect_container w tr cid =
     (case run_docker w tr [''inspect'', cid] of
        (Inl e, tr1) \<Rightarrow> (Inl e, tr1)
      | (Inr _, tr1) \<Rightarrow>
          (case inspect_stdout w cid of
             [] \<Rightarrow> (Inl (NotFound cid), tr1)
           | info # _ \<Rightarrow> (Inr info, tr1)))"

subsection \<open>Snapshot stager\<close>

definition resolve_temp_dir :: "world \<Rightarrow> event list \<Rightarrow> string option \<Rightarrow> (error + path) \<times> event list" where
  "resolve_temp_dir w tr temp_root =
     (let root0 = (if truthy temp_root then Path (the temp_root) else Path (gettempdir w));
          root1 = resolve w root0
      in case fs w tr (Mkdir root1) of
           (Inl e, tr1) \<Rightarrow> (Inl e, tr1)
         | (Inr _, tr1) \<Rightarrow>
             let d = Path (mkdtemp w ''devc_to_docker_'' (as_posix root1))
             in (case fs w tr1 (Mkdtemp d) of
                   (Inl e, tr2) \<Rightarrow> (Inl e, tr2)
                 | (Inr _, tr2) \<Rightarrow> (Inr d, tr2)))"

text \<open>The body of the loop of \<^verbatim>\<open>_copy_bind_mounts_to_tmp\<close>, for one mount.\<close>

definition copy_bind_mount_to_tmp :: "world \<Rightarrow> event list \<Rightarrow> BindMount \<Rightarrow> path \<Rightarrow> (error + CopySpec) \<times> event list" where
  "copy_bind_mount_to_tmp w tr m tmp =
     (if \<not> path_exists w tr (source m) then (Inl (SourceMissing (source m)), tr)
      else
        let destination = BindMount.destination m
        in case (if is_absolute destination
                 then (let ps = drop 1 (parts destination)
                       in if ps = [] then Inl InvalidDestination else Inr (Path_of_parts ps))
                 else Inr destination) of
             Inl e \<Rightarrow> (Inl e, tr)
           | Inr relative \<Rightarrow>
               let host_target = truediv tmp relative
               in (case fs w tr (Mkdir (parent host_target)) of
                     (Inl e, tr1) \<Rightarrow> (Inl e, tr1)
                   | (Inr _, tr1) \<Rightarrow>
                       (case (if path_exists w tr1 host_target
                              then (if path_is_dir w tr1 host_target
                                    then fs w tr1 (Rmtree host_target)
                                    else fs w tr1 (Unlink host_target))
                              else (Inr (), tr1)) of
                          (Inl e, tr2) \<Rightarrow> (Inl e, tr2)
                        | (Inr _, tr2) \<Rightarrow>
                            (case (if path_is_dir w tr2 (source m)
                                   then fs w tr2 (Copytree (source m) host_target)
                                   else fs w tr2 (Copy2 (source m) host_target)) of
                               (Inl e, tr3) \<Rightarrow> (Inl e, tr3)
                             | (Inr _, tr3) \<Rightarrow>
                                 (Inr \<lparr>CopySpec.destination = destination, host_path = host_target\<rparr>,
                                  tr3)))))"

fun copy_bind_mounts_to_tmp :: "world \<Rightarrow> event list \<Rightarrow> BindMount list \<Rightarrow> path \<Rightarrow> (error + CopySpec list) \<times> event list" where
  "copy_bind_mounts_to_tmp w tr [] tmp = (Inr [], tr)"
| "copy_bind_mounts_to_tmp w tr (m # bind_mounts) tmp =
     (case copy_bind_mount_to_tmp w tr m tmp of
        (Inl e, tr1) \<Rightarrow> (Inl e, tr1)
      | (Inr c, tr1) \<Rightarrow>
          (case copy_bind_mounts_to_tmp w tr1 bind_mounts tmp of
             (Inl e, tr2) \<Rightarrow> (Inl e, tr2)
           | (Inr copies, tr2) \<Rightarrow> (Inr (c # copies), tr2)))"

subsection \<open>Disposable container and restore\<close>

text \<open>The argument list that \<^verbatim>\<open>_start_keepalive_container\<close> builds.\<close>

definition run_args :: "string \<Rightarrow> string \<Rightarrow> string list" where
  "run_args image_tag name =
     (let keepalive = ''while true; do sleep 3600; done''
      in [''run'', ''-d'', ''--name'', name, ''--entrypoint'', ''/bin/sh'', image_tag, ''-lc'',
          keepalive])"

definition start_keepalive_container :: "world \<Rightarrow> event list \<Rightarrow> string \<Rightarrow> string \<Rightarrow> (error + unit) \<times> event list" where
  "start_keepalive_container w tr image_tag name = run_docker w tr (run_args image_tag name)"

text \<open>The three commands of one iteration of \<^verbatim>\<open>_restore_bind_mounts\<close>.\<close>

definition destination_str :: "CopySpec \<Rightarrow> string" where
  "destination_str spec = str_or (as_posix (CopySpec.destination spec)) ''.''"

definition parent_str :: "CopySpec \<Rightarrow> string" where
  "parent_str spec =
     (let destination = CopySpec.destination spec;
          destination_parent = (if parent destination \<noteq> destination then parent destination
                                else Path ''/'')
      in str_or (as_posix destination_parent) ''.'')"

definition rm_cmd :: "string \<Rightarrow> CopySpec \<Rightarrow> string list" where
  "rm_cmd temp_container spec = [''exec'', temp_container, ''rm'', ''-rf'', destination_str spec]"

definition mkdir_cmd :: "string \<Rightarrow> CopySpec \<Rightarrow> string list" where
  "mkdir_cmd temp_container spec = [''exec'', temp_container, ''mkdir'', ''-p'', parent_str spec]"

definition cp_cmd :: "string \<Rightarrow> CopySpec \<Rightarrow> string list" where
  "cp_cmd temp_container spec =
     [''cp'', as_posix (host_path spec), temp_container @ '':'' @ parent_str spec]"

fun restore_bind_mounts :: "world \<Rightarrow> event list \<Rightarrow> string \<Rightarrow> CopySpec list \<Rightarrow> (error + unit) \<times> event list" where
  "restore_bind_mounts w tr temp_container [] = (Inr (), tr)"
| "restore_bind_mounts w tr temp_container (spec # copies) =
     (let tr1 = (case run_docker w tr (rm_cmd temp_container spec) of
                   (Inl e, t) \<Rightarrow>
                     t @ [Warning (''could not remove existing '' @ destination_str spec
                                   @ '' in '' @ temp_container)]
                 | (Inr _, t) \<Rightarrow> t)
      in case run_docker w tr1 (mkdir_cmd temp_container spec) of
           (Inl e, tr2) \<Rightarrow> (Inl (RestoreFailed (parent_str spec) temp_container), tr2)
         | (Inr _, tr2) \<Rightarrow>
             (case run_docker w tr2 (cp_cmd temp_container spec) of
                (Inl e, tr3) \<Rightarrow> (Inl e, tr3)
              | (Inr _, tr3) \<Rightarrow> restore_bind_mounts w tr3 temp_container copies))"

subsection \<open>Image assembler\<close>

text \<open>The \<^verbatim>\<open>try\<close> block of \<^verbatim>\<open>devc_to_docker\<close> (lines 244 to 253).\<close>

definition commit_cmd :: "string list \<Rightarrow> string \<Rightarrow> string \<Rightarrow> string list" where
  "commit_cmd changes name output_image =
     [''commit''] @ concat (map (\<lambda>change. [''--change'', change]) changes) @ [name, output_image]"

definition devc_to_docker_try :: "world \<Rightarrow> event list \<Rightarrow> string \<Rightarrow> CopySpec list \<Rightarrow> inspect_info \<Rightarrow> string \<Rightarrow> (error + unit) \<times> event list" where
  "devc_to_docker_try w tr name copies info output_image =
     (case restore_bind_mounts w tr name copies of
        (Inl e, tr1) \<Rightarrow> (Inl e, tr1)
      | (Inr _, tr1) \<Rightarrow>
          let changes = build_commit_changes (get_default (Config info) empty_config)
          in run_docker w tr1 (commit_cmd changes name output_image))"

text \<open>
  The \<^verbatim>\<open>finally\<close> block (lines 255 to 267): a failing \<^verbatim>\<open>stop\<close> or \<^verbatim>\<open>rm\<close> is
  caught and dropped.
\<close>

definition devc_to_docker_finally :: "world \<Rightarrow> event list \<Rightarrow> string \<Rightarrow> path \<Rightarrow> bool \<Rightarrow> event list" where
  "devc_to_docker_finally w tr name tmp keep_temp =
     (let tr1 = snd (run_docker w tr [''stop'', name]);
          tr2 = snd (run_docker w tr1 [''rm'', name])
      in if \<not> keep_temp then rmtree_ignore_errors w tr2 tmp else tr2)"

definition devc_to_docker :: "world \<Rightarrow> string \<Rightarrow> string option \<Rightarrow> string option \<Rightarrow> string option \<Rightarrow> bool \<Rightarrow> bool \<Rightarrow> (error + DevcToDockerResult) \<times> event list" where
  "devc_to_docker w cid output_tag intermediate_tag temp_root keep_temp keep_intermediate =
     (case ensure_docker_available w of
        Inl e \<Rightarrow> (Inl e, [])
      | Inr _ \<Rightarrow>
     (case inspect_container w [] cid of
        (Inl e, tr1) \<Rightarrow> (Inl e, tr1)
      | (Inr info, tr1) \<Rightarrow>
     (let sanitized_name = sanitize_name (container_name info cid);
          timestamp = utcnow w;
          output_image = default_output_image output_tag sanitized_name timestamp;
          intermediate = default_intermediate_image intermediate_tag output_image;
          bind_mounts = extract_bind_mounts (get_default (Mounts info) [])
      in if bind_mounts = [] then (Inl (NoBindMounts cid), tr1)
         else
     (case run_docker w tr1 [''commit'', cid, intermediate] of
        (Inl e, tr2) \<Rightarrow> (Inl e, tr2)
      | (Inr _, tr2) \<Rightarrow>
     (case resolve_temp_dir w tr2 temp_root of
        (Inl e, tr3) \<Rightarrow> (Inl e, tr3)
      | (Inr tmp, tr3) \<Rightarrow>
     (case copy_bind_mounts_to_tmp w tr3 bind_mounts tmp of
        (Inl e, tr4) \<Rightarrow> (Inl e, tr4)
      | (Inr copies, tr4) \<Rightarrow>
     (let name = temp_container_name sanitized_name timestamp
      in case start_keepalive_container w tr4 intermediate name of
           (Inl e, tr5) \<Rightarrow> (Inl e, tr5)
         | (Inr _, tr5) \<Rightarrow>
             (case devc_to_docker_try w tr5 name copies info output_image of
                (r, tr6) \<Rightarrow>
                  let tr7 = devc_to_docker_finally w tr6 name tmp keep_temp
                  in (case r of
                        Inl e \<Rightarrow> (Inl e, tr7)
                      | Inr _ \<Rightarrow>
                          let tr8 =
                            (if \<not> keep_intermediate
                             then (case run_docker w tr7 [''rmi'', intermediate] of
                                     (Inl e, t) \<Rightarrow>
                                       t @ [Warning (''could not remove intermediate image ''
                                                     @ intermediate)]
                                   | (Inr _, t) \<Rightarrow> t)
                             else tr7)
                          in (Inr \<lparr>container_id = cid, final_image = output_image,
                                   intermediate_image = intermediate, temp_dir = tmp,
                                   copied_mounts = copies\<rparr>,
                              tr8))))))))))"

subsection \<open>Reading a history\<close>

text \<open>The \<^verbatim>\<open>docker\<close> subcommand of an event; empty for the other events.\<close>

definition cmd_name :: "event \<Rightarrow> string" where
  "cmd_name ev =
     (case ev of
        Docker args _ \<Rightarrow> (case args of [] \<Rightarrow> [] | a # _ \<Rightarrow> a)
      | _ \<Rightarrow> [])"

definition is_mkdtemp :: "event \<Rightarrow> bool" where
  "is_mkdtemp ev = (case ev of Fs (Mkdtemp _) _ \<Rightarrow> True | _ \<Rightarrow> False)"

definition rmi_issued :: "event list \<Rightarrow> bool" where
  "rmi_issued tr = list_ex (\<lambda>ev. cmd_name ev = ''rmi'') tr"

text \<open>The \<^verbatim>\<open>docker\<close> commands of a history, in the order they were issued.\<close>

fun docker_cmds :: "event list \<Rightarrow> string list list" where
  "docker_cmds [] = []"
| "docker_cmds (Docker args _ # evs) = args # docker_cmds evs"
| "docker_cmds (_ # evs) = docker_cmds evs"

subsection \<open>Example worlds\<close>

text \<open>
  A container named \<^verbatim>\<open>/My App!\<close> with one bind mount from \<^verbatim>\<open>/host/proj\<close> to
  \<^verbatim>\<open>/workspace\<close> and one volume, in surroundings where every command and every file
  system call succeeds, exactly the paths under \<^verbatim>\<open>/host\<close> exist, and every path that
  exists is a directory.
\<close>

definition example_info :: inspect_info where
  "example_info =
     \<lparr>Name = Some ''/My App!'',
      Mounts = Some [\<lparr>Type = Some ''bind'', Source = Some ''/host/proj'',
                      Destination = Some ''/workspace''\<rparr>,
                     \<lparr>Type = Some ''volume'', Source = Some ''/var/lib/docker/volumes/v'',
                      Destination = Some ''/data''\<rparr>],
      Config = Some \<lparr>Entrypoint = Some [''/bin/bash''], Cmd = None,
                      WorkingDir = Some ''/workspace'', User = Some []\<rparr>\<rparr>"

definition w_ok :: world where
  "w_ok =
     \<lparr>which_docker = True,
      docker_succeeds = (\<lambda>tr args. True),
      inspect_stdout = (\<lambda>cid. [example_info]),
      utcnow = ''20240101120000'',
      gettempdir = ''/tmp'',
      resolve = (\<lambda>p. p),
      mkdtemp = (\<lambda>prefix dir. dir @ ''/'' @ prefix @ ''abc''),
      path_exists = (\<lambda>tr p. take 1 (segments p) = [''host'']),
      path_is_dir = (\<lambda>tr p. True),
      fs_succeeds = (\<lambda>tr op. True)\<rparr>"

text \<open>The same, where the final commit (the one with change directives) fails.\<close>

definition w_commit_fails :: world where
  "w_commit_fails = w_ok\<lparr>docker_succeeds := (\<lambda>tr args. take 2 args \<noteq> [''commit'', ''--change''])\<rparr>"

text \<open>The same, where no path exists on the host: the bind mount's source has vanished.\<close>

definition w_source_missing :: world where
  "w_source_missing = w_ok\<lparr>path_exists := (\<lambda>tr p. False)\<rparr>"

text \<open>The same, where \<^verbatim>\<open>docker run\<close> fails.\<close>

definition w_run_fails :: world where
  "w_run_fails = w_ok\<lparr>docker_succeeds := (\<lambda>tr args. take 1 args \<noteq> [''run''])\<rparr>"

text \<open>The same, where every \<^verbatim>\<open>docker exec ... rm -rf\<close> fails.\<close>

definition w_rm_fails :: world where
  "w_rm_fails = w_ok\<lparr>docker_succeeds := (\<lambda>tr args. take 1 (drop 2 args) \<noteq> [''rm''])\<rparr>"

text \<open>A container with a volume only, and one with no name.\<close>

definition w_no_binds :: world where
  "w_no_binds =
     w_ok\<lparr>inspect_stdout := (\<lambda>cid. [example_info\<lparr>Mounts :=
              Some [\<lparr>Type = Some ''volume'', Source = Some ''/var/lib/docker/volumes/v'',
                     Destination = Some ''/data''\<rparr>]\<rparr>])\<rparr>"

definition w_no_name :: world where
  "w_no_name = w_ok\<lparr>inspect_stdout := (\<lambda>cid. [example_info\<lparr>Name := None\<rparr>])\<rparr>"



text \<open>The commands of the restore step for a list of CopySpecs, in order.\<close>

definition restore_cmds :: "string \<Rightarrow> CopySpec list \<Rightarrow> string list list" where
  "restore_cmds c copies = concat (map (\<lambda>spec. [rm_cmd c spec, mkdir_cmd c spec, cp_cmd c spec]) copies)"

text \<open>The same, where every \<^verbatim>\<open>docker exec ... mkdir -p\<close> fails.\<close>

definition w_mkdir_fails :: world where
  "w_mkdir_fails = w_ok\<lparr>docker_succeeds := (\<lambda>tr args. take 1 (drop 2 args) \<noteq> [''mkdir''])\<rparr>"

subsection \<open>Where a path leads\<close>




section \<open>Properties\<close>

subsection \<open>Histories of the effectful functions\<close>

text \<open>
  Every effectful function appends to the history it is given. The lemmas below say which
  events each of them can append; \<open>devc_to_docker_shape\<close> puts them together into the shape
  of every history of the pipeline.
\<close>

lemma run_docker_trace:
  "run_docker w tr args = (r, tr') \<Longrightarrow> tr' = tr @ [Docker args (r = Inr ())] \<and> (r = Inr () \<or> r = Inl (CalledProcessError (''docker'' # args)))"
  by (auto simp: run_docker_def Let_def split: if_splits)

lemma fs_trace:
  "fs w tr op = (r, tr') \<Longrightarrow> tr' = tr @ [Fs op (r = Inr ())] \<and> (r = Inr () \<or> r = Inl OSError)"
  by (auto simp: fs_def Let_def split: if_splits)

lemma copy_one_events:
  assumes "copy_bind_mount_to_tmp w tr m tmp = (r, tr')"
  shows "\<exists>new. tr' = tr @ new \<and> (\<forall>ev\<in>set new. cmd_name ev = [] \<and> \<not> is_mkdtemp ev)"
  using assms unfolding copy_bind_mount_to_tmp_def Let_def
  by (auto split: if_splits sum.splits prod.splits dest!: fs_trace simp: cmd_name_def is_mkdtemp_def)

lemma copy_events:
  "copy_bind_mounts_to_tmp w tr ms tmp = (r, tr') \<Longrightarrow>
     \<exists>new. tr' = tr @ new \<and> (\<forall>ev\<in>set new. cmd_name ev = [] \<and> \<not> is_mkdtemp ev)"
proof (induction ms arbitrary: tr r tr')
  case Nil
  then show ?case by simp
next
  case (Cons m ms)
  show ?case
  proof (cases "copy_bind_mount_to_tmp w tr m tmp")
    case (Pair r1 tr1)
    from copy_one_events[OF Pair] obtain n1 where n1: "tr1 = tr @ n1" "\<forall>ev\<in>set n1. cmd_name ev = [] \<and> \<not> is_mkdtemp ev" by blast
    show ?thesis
    proof (cases r1)
      case (Inl e)
      with Cons.prems Pair n1 show ?thesis by auto
    next
      case (Inr c)
      obtain r2 tr2 where r2: "copy_bind_mounts_to_tmp w tr1 ms tmp = (r2, tr2)" by fastforce
      from Cons.IH[OF r2] obtain n2 where n2: "tr2 = tr1 @ n2" "\<forall>ev\<in>set n2. cmd_name ev = [] \<and> \<not> is_mkdtemp ev" by blast
      from Cons.prems Pair Inr r2 have "tr' = tr2" by (auto split: sum.splits)
      with n1 n2 show ?thesis by auto
    qed
  qed
qed

lemma restore_events:
  "restore_bind_mounts w tr c copies = (r, tr') \<Longrightarrow>
     \<exists>new. tr' = tr @ new \<and> (\<forall>ev\<in>set new. cmd_name ev \<in> {''exec'', ''cp'', []} \<and> \<not> is_mkdtemp ev)"
proof (induction copies arbitrary: tr r tr')
  case Nil
  then show ?case by simp
next
  case (Cons spec copies)
  obtain r1 t1 where a: "run_docker w tr (rm_cmd c spec) = (r1, t1)" by fastforce
  define tr1 where "tr1 = (case r1 of Inl e \<Rightarrow> t1 @ [Warning (''could not remove existing '' @ destination_str spec @ '' in '' @ c)] | Inr _ \<Rightarrow> t1)"
  obtain r2 tr2 where b: "run_docker w tr1 (mkdir_cmd c spec) = (r2, tr2)" by fastforce
  obtain r3 tr3 where d: "run_docker w tr2 (cp_cmd c spec) = (r3, tr3)" by fastforce
  have e1: "\<exists>n. tr1 = tr @ n \<and> (\<forall>ev\<in>set n. cmd_name ev \<in> {''exec'', ''cp'', []} \<and> \<not> is_mkdtemp ev)"
    using run_docker_trace[OF a] by (auto simp: tr1_def cmd_name_def is_mkdtemp_def rm_cmd_def split: sum.splits)
  have e2: "\<exists>n. tr2 = tr @ n \<and> (\<forall>ev\<in>set n. cmd_name ev \<in> {''exec'', ''cp'', []} \<and> \<not> is_mkdtemp ev)"
    using e1 run_docker_trace[OF b] by (auto simp: cmd_name_def is_mkdtemp_def mkdir_cmd_def)
  have e3: "\<exists>n. tr3 = tr @ n \<and> (\<forall>ev\<in>set n. cmd_name ev \<in> {''exec'', ''cp'', []} \<and> \<not> is_mkdtemp ev)"
    using e2 run_docker_trace[OF d] by (auto simp: cmd_name_def is_mkdtemp_def cp_cmd_def)
  show ?case
  proof (cases r2)
    case (Inl e)
    with Cons.prems a b have "tr' = tr2" by (simp add: tr1_def Let_def)
    with e2 show ?thesis by simp
  next
    case r2ok: (Inr u)
    show ?thesis
    proof (cases r3)
      case (Inl e)
      with Cons.prems a b d r2ok have "tr' = tr3" by (simp add: tr1_def Let_def)
      with e3 show ?thesis by simp
    next
      case (Inr u')
      with Cons.prems a b d r2ok have "restore_bind_mounts w tr3 c copies = (r, tr')" by (simp add: tr1_def Let_def)
      from Cons.IH[OF this] obtain n where "tr' = tr3 @ n" "\<forall>ev\<in>set n. cmd_name ev \<in> {''exec'', ''cp'', []} \<and> \<not> is_mkdtemp ev" by blast
      with e3 show ?thesis by auto
    qed
  qed
qed

lemma resolve_temp_dir_trace:
  assumes "resolve_temp_dir w tr troot = (r, tr')"
  shows "(isl r \<and> (\<exists>new. tr' = tr @ new \<and> (\<forall>ev\<in>set new. cmd_name ev = [])))
       \<or> (\<exists>root1 d. r = Inr d \<and> tr' = tr @ [Fs (Mkdir root1) True, Fs (Mkdtemp d) True])"
  using assms unfolding resolve_temp_dir_def Let_def
  by (auto split: sum.splits prod.splits dest!: fs_trace simp: cmd_name_def)

lemma try_events:
  assumes "devc_to_docker_try w tr name copies info out = (r, tr')"
  shows "\<exists>body. tr' = tr @ body \<and>
           (\<forall>ev\<in>set body. cmd_name ev \<in> {''exec'', ''cp'', ''commit'', []} \<and> \<not> is_mkdtemp ev)"
proof -
  obtain r1 tr1 where a: "restore_bind_mounts w tr name copies = (r1, tr1)" by fastforce
  from restore_events[OF a] obtain n where n: "tr1 = tr @ n"
    "\<forall>ev\<in>set n. cmd_name ev \<in> {''exec'', ''cp'', []} \<and> \<not> is_mkdtemp ev" by blast
  show ?thesis
  proof (cases r1)
    case (Inl e)
    with assms a have "tr' = tr1" by (simp add: devc_to_docker_try_def)
    with n show ?thesis by auto
  next
    case (Inr u)
    with assms a have "run_docker w tr1 (commit_cmd (build_commit_changes (get_default (Config info) empty_config)) name out) = (r, tr')"
      by (simp add: devc_to_docker_try_def Let_def)
    from run_docker_trace[OF this] n show ?thesis
      by (auto simp: cmd_name_def is_mkdtemp_def commit_cmd_def)
  qed
qed

lemma finally_trace:
  "\<exists>b1 b2 b3. devc_to_docker_finally w tr name tmp kt =
      tr @ [Docker [''stop'', name] b1, Docker [''rm'', name] b2] @ (if kt then [] else [Fs (Rmtree tmp) b3])"
  unfolding devc_to_docker_finally_def rmtree_ignore_errors_def Let_def run_docker_def fs_def
  by simp

lemma start_keepalive_trace:
  "start_keepalive_container w tr img name = (r, tr') \<Longrightarrow>
     tr' = tr @ [Docker (run_args img name) (r = Inr ())]"
  unfolding start_keepalive_container_def
  by (auto dest!: run_docker_trace)

lemma devc_to_docker_shape:
  assumes run: "devc_to_docker w cid ot it troot kt ki = (res, tr)"
  defines "slug \<equiv> sanitize_name (container_name (hd (inspect_stdout w cid)) cid)"
  defines "out \<equiv> default_output_image ot slug (utcnow w)"
  defines "stg \<equiv> default_intermediate_image it out"
  defines "name \<equiv> temp_container_name slug (utcnow w)"
  shows "(isl res \<and> (\<forall>ev\<in>set tr. cmd_name ev \<in> {''inspect'', ''commit'', []}
                                     \<or> ev = Docker (run_args stg name) False))
       \<or> (\<exists>p0 root1 tmp p1 body b1 b2 b3 post.
            tr = p0 @ [Fs (Mkdir root1) True, Fs (Mkdtemp tmp) True] @ p1 @ [Docker (run_args stg name) True] @ body
                 @ [Docker [''stop'', name] b1, Docker [''rm'', name] b2]
                 @ (if kt then [] else [Fs (Rmtree tmp) b3]) @ post
            \<and> (\<forall>ev\<in>set p0. cmd_name ev \<in> {''inspect'', ''commit''})
            \<and> (\<forall>ev\<in>set p1. cmd_name ev = [] \<and> \<not> is_mkdtemp ev)
            \<and> (\<forall>ev\<in>set body. cmd_name ev \<in> {''exec'', ''cp'', ''commit'', []} \<and> \<not> is_mkdtemp ev)
            \<and> (case res of
                  Inl e \<Rightarrow> post = []
                | Inr r \<Rightarrow> final_image r = out \<and> intermediate_image r = stg \<and> temp_dir r = tmp
                           \<and> container_id r = cid
                           \<and> (\<exists>b4. post = (if ki then []
                                     else Docker [''rmi'', stg] b4
                                          # (if b4 then [] else [Warning (''could not remove intermediate image '' @ stg)])))))"
    (is "?early \<or> ?late")
proof (cases "which_docker w")
  case False
  with run have "res = Inl EngineUnavailable" "tr = []"
    by (simp_all add: devc_to_docker_def ensure_docker_available_def)
  then show ?thesis by simp
next
  case wd: True
  obtain r1 tr1 where i: "run_docker w [] [''inspect'', cid] = (r1, tr1)" by fastforce
  from run_docker_trace[OF i] have tr1: "tr1 = [Docker [''inspect'', cid] (r1 = Inr ())]" by simp
  show ?thesis
  proof (cases "r1 = Inr () \<and> inspect_stdout w cid \<noteq> []")
    case False
    with run wd i have "isl res \<and> tr = tr1"
      by (auto simp: devc_to_docker_def ensure_docker_available_def inspect_container_def
               split: sum.splits list.splits)
    with tr1 show ?thesis by (auto simp: cmd_name_def)
  next
    case True
    then obtain info rest where info: "inspect_stdout w cid = info # rest" by (cases "inspect_stdout w cid") auto
    have ic: "inspect_container w [] cid = (Inr info, tr1)"
      using True i info by (simp add: inspect_container_def)
    have hd: "hd (inspect_stdout w cid) = info" using info by simp
    define bms where "bms = extract_bind_mounts (get_default (Mounts info) [])"
    show ?thesis
    proof (cases "bms = []")
      case True
      with run wd ic have "isl res \<and> tr = tr1"
        by (auto simp: devc_to_docker_def ensure_docker_available_def Let_def bms_def)
      with tr1 show ?thesis by (auto simp: cmd_name_def)
    next
      case bne: False
      obtain r2 tr2 where c: "run_docker w tr1 [''commit'', cid, stg] = (r2, tr2)" by fastforce
      from run_docker_trace[OF c] have tr2: "tr2 = tr1 @ [Docker [''commit'', cid, stg] (r2 = Inr ())]" by simp
      show ?thesis
      proof (cases r2)
        case (Inl e)
        with run wd ic bne c have "isl res \<and> tr = tr2"
          by (auto simp: devc_to_docker_def ensure_docker_available_def Let_def bms_def
                        stg_def out_def slug_def hd)
        with tr1 tr2 show ?thesis by (auto simp: cmd_name_def)
      next
        case r2ok: (Inr u2)
        obtain r3 tr3 where t: "resolve_temp_dir w tr2 troot = (r3, tr3)" by fastforce
        show ?thesis
        proof (cases r3)
          case (Inl e)
          with run wd ic bne c r2ok t have "isl res \<and> tr = tr3"
            by (auto simp: devc_to_docker_def ensure_docker_available_def Let_def bms_def
                          stg_def out_def slug_def hd)
          moreover from resolve_temp_dir_trace[OF t] Inl obtain new where
            "tr3 = tr2 @ new" "\<forall>ev\<in>set new. cmd_name ev = []" by auto
          ultimately show ?thesis using tr1 tr2 by (auto simp: cmd_name_def)
        next
          case r3ok: (Inr tmp)
          from resolve_temp_dir_trace[OF t] r3ok obtain root1 where
            tr3: "tr3 = tr2 @ [Fs (Mkdir root1) True, Fs (Mkdtemp tmp) True]" by auto
          obtain r4 tr4 where s: "copy_bind_mounts_to_tmp w tr3 bms tmp = (r4, tr4)" by fastforce
          from copy_events[OF s] obtain p1 where
            tr4: "tr4 = tr3 @ p1" and p1: "\<forall>ev\<in>set p1. cmd_name ev = [] \<and> \<not> is_mkdtemp ev" by blast
          show ?thesis
          proof (cases r4)
            case (Inl e)
            with run wd ic bne c r2ok t r3ok s have "isl res \<and> tr = tr4"
              by (auto simp: devc_to_docker_def ensure_docker_available_def Let_def bms_def
                            stg_def out_def slug_def hd)
            with tr1 tr2 tr3 tr4 p1 show ?thesis by (auto simp: cmd_name_def)
          next
            case r4ok: (Inr copies)
            obtain r5 tr5 where k: "start_keepalive_container w tr4 stg name = (r5, tr5)" by fastforce
            from start_keepalive_trace[OF k] have
              tr5: "tr5 = tr4 @ [Docker (run_args stg name) (r5 = Inr ())]" .
            show ?thesis
            proof (cases r5)
              case (Inl e)
              with run wd ic bne c r2ok t r3ok s r4ok k have "isl res \<and> tr = tr5"
                by (auto simp: devc_to_docker_def ensure_docker_available_def Let_def bms_def
                              stg_def out_def slug_def hd name_def)
              with tr1 tr2 tr3 tr4 tr5 p1 Inl show ?thesis
                by (auto simp: cmd_name_def)
            next
              case r5ok: (Inr u5)
              obtain r6 tr6 where b: "devc_to_docker_try w tr5 name copies info out = (r6, tr6)" by fastforce
              from try_events[OF b] obtain body where
                tr6: "tr6 = tr5 @ body" and
                body: "\<forall>ev\<in>set body. cmd_name ev \<in> {''exec'', ''cp'', ''commit'', []} \<and> \<not> is_mkdtemp ev"
                by blast
              obtain b1 b2 b3 where
                f: "devc_to_docker_finally w tr6 name tmp kt =
                      tr6 @ [Docker [''stop'', name] b1, Docker [''rm'', name] b2]
                          @ (if kt then [] else [Fs (Rmtree tmp) b3])"
                using finally_trace by blast
              define tr7 where "tr7 = devc_to_docker_finally w tr6 name tmp kt"
              have p0: "\<forall>ev\<in>set tr2. cmd_name ev \<in> {''inspect'', ''commit''}"
                using tr1 tr2 by (auto simp: cmd_name_def)
              have tr7: "tr7 = tr2 @ [Fs (Mkdir root1) True, Fs (Mkdtemp tmp) True] @ p1
                     @ [Docker (run_args stg name) True] @ body
                     @ [Docker [''stop'', name] b1, Docker [''rm'', name] b2]
                     @ (if kt then [] else [Fs (Rmtree tmp) b3])"
                using f tr3 tr4 tr5 tr6 r5ok by (simp add: tr7_def)
              have tail: "(res, tr) =
                  (case r6 of Inl e \<Rightarrow> (Inl e, tr7)
                   | Inr _ \<Rightarrow>
                       (Inr \<lparr>container_id = cid, final_image = out, intermediate_image = stg,
                             temp_dir = tmp, copied_mounts = copies\<rparr>,
                        if \<not> ki
                        then (case run_docker w tr7 [''rmi'', stg] of
                                (Inl e, t) \<Rightarrow> t @ [Warning (''could not remove intermediate image '' @ stg)]
                              | (Inr _, t) \<Rightarrow> t)
                        else tr7))"
                using run wd ic bne c r2ok t r3ok s r4ok k r5ok b
                unfolding stg_def out_def slug_def name_def tr7_def bms_def hd
                by (auto simp: devc_to_docker_def ensure_docker_available_def Let_def
                         split: sum.splits)
              have ?late
              proof (cases r6)
                case (Inl e)
                with tail have "res = Inl e" "tr = tr7" by simp_all
                with tr7 p0 p1 body show ?thesis
                  apply (rule_tac x = tr2 in exI, rule_tac x = root1 in exI, rule_tac x = tmp in exI,
                         rule_tac x = p1 in exI, rule_tac x = body in exI, rule_tac x = b1 in exI,
                         rule_tac x = b2 in exI, rule_tac x = b3 in exI, rule_tac x = "[]" in exI)
                  apply simp
                  done
              next
                case (Inr u6)
                obtain r8 t8 where m: "run_docker w tr7 [''rmi'', stg] = (r8, t8)" by fastforce
                from run_docker_trace[OF m] have t8: "t8 = tr7 @ [Docker [''rmi'', stg] (r8 = Inr ())]" by simp
                define post where "post = (if ki then []
                                     else Docker [''rmi'', stg] (r8 = Inr ())
                                          # (if r8 = Inr () then [] else [Warning (''could not remove intermediate image '' @ stg)]))"
                from tail Inr m t8 have res: "res = Inr \<lparr>container_id = cid, final_image = out, intermediate_image = stg,
                             temp_dir = tmp, copied_mounts = copies\<rparr>" and tr: "tr = tr7 @ post"
                  by (auto simp: post_def split: sum.splits)
                show ?thesis
                  using tr tr7 p0 p1 body res
                  apply (rule_tac x = tr2 in exI, rule_tac x = root1 in exI, rule_tac x = tmp in exI,
                         rule_tac x = p1 in exI, rule_tac x = body in exI, rule_tac x = b1 in exI,
                         rule_tac x = b2 in exI, rule_tac x = b3 in exI, rule_tac x = post in exI)
                  apply (simp add: post_def)
                  done
              qed
              then show ?thesis ..
            qed
          qed
        qed
      qed
    qed
  qed
qed

subsection \<open>Naming and metadata\<close>

lemma strip_decompose:
  "\<exists>pre post. s = pre @ strip cs s @ post \<and> set pre \<subseteq> set cs \<and> set post \<subseteq> set cs"
proof -
  let ?P = "\<lambda>c. c \<in> set cs"
  let ?t = "dropWhile ?P s"
  have a: "s = takeWhile ?P s @ ?t" by simp
  have "rev (dropWhile ?P (rev ?t)) @ rev (takeWhile ?P (rev ?t))
          = rev (takeWhile ?P (rev ?t) @ dropWhile ?P (rev ?t))"
    by (simp only: rev_append)
  also have "\<dots> = rev (rev ?t)" by (simp only: takeWhile_dropWhile_id)
  also have "\<dots> = ?t" by simp
  finally have b: "?t = rev (dropWhile ?P (rev ?t)) @ rev (takeWhile ?P (rev ?t))" by simp
  have c: "set (takeWhile ?P s) \<subseteq> set cs" by (auto dest: set_takeWhileD)
  have d: "set (rev (takeWhile ?P (rev ?t))) \<subseteq> set cs" by (auto dest: set_takeWhileD)
  have "s = takeWhile ?P s @ strip cs s @ rev (takeWhile ?P (rev ?t))"
    using a b unfolding strip_def lstrip_def rstrip_def by metis
  with c d show ?thesis by blast
qed

lemma last_dropWhile: "dropWhile P xs \<noteq> [] \<Longrightarrow> last (dropWhile P xs) = last xs"
  by (induction xs) (auto split: if_splits)

lemma strip_ends:
  assumes "strip cs s \<noteq> []"
  shows "hd (strip cs s) \<notin> set cs \<and> last (strip cs s) \<notin> set cs"
proof -
  let ?P = "\<lambda>c. c \<in> set cs"
  let ?t = "dropWhile ?P s"
  let ?u = "dropWhile ?P (rev ?t)"
  from assms have u: "?u \<noteq> []" by (simp add: strip_def lstrip_def rstrip_def)
  have t: "?t \<noteq> []"
    using u by (metis dropWhile.simps(1) rev.simps(1))
  have "last (rev ?u) = hd ?u" using u by (simp add: last_rev)
  moreover have "\<not> ?P (hd ?u)" using u by (rule hd_dropWhile)
  moreover have "hd (rev ?u) = last ?u" using u by (simp add: hd_rev)
  moreover have "last ?u = last (rev ?t)" using u by (rule last_dropWhile)
  moreover have "last (rev ?t) = hd ?t" using t by (simp add: last_rev)
  moreover have "\<not> ?P (hd ?t)" using t by (rule hd_dropWhile)
  ultimately show ?thesis by (simp add: strip_def lstrip_def rstrip_def)
qed

lemma name_char_class:
  "name_char c \<longleftrightarrow> c \<in> set ''abcdefghijklmnopqrstuvwxyzABCDEFGHIJKLMNOPQRSTUVWXYZ0123456789_.-''"
  by (cases c) (simp add: name_char_def)

lemma sanitize_example: "sanitize_name ''My App!'' = ''My-App''"
  by (simp add: sanitize_name_def strip_def lstrip_def rstrip_def name_char_def str_or_def)

text \<open>
  Claim C8. Sanitising a name replaces every character outside \<^verbatim>\<open>[A-Za-z0-9_.-]\<close> by a
  dash and then trims dashes and dots from both ends: the replaced string splits into a
  prefix and a suffix of dashes and dots around the trimmed part, which neither starts nor
  ends with a dash or a dot; the slug is the trimmed part, or \<^verbatim>\<open>container\<close> when that is
  empty. With no tags supplied the final tag is \<^verbatim>\<open>devc_to_docker/<slug>:<timestamp>\<close> and
  the intermediate tag is the final tag followed by \<^verbatim>\<open>-stage\<close>. For the name
  \<^verbatim>\<open>My App!\<close> and the time stamp 20240101120000 the slug is \<^verbatim>\<open>My-App\<close>, the final tag
  \<^verbatim>\<open>devc_to_docker/My-App:20240101120000\<close> and the intermediate tag
  \<^verbatim>\<open>devc_to_docker/My-App:20240101120000-stage\<close>.
\<close>

theorem sanitize_name_default_tags:
  "(\<exists>pre trimmed post.
       map (\<lambda>c. if c \<in> set ''abcdefghijklmnopqrstuvwxyzABCDEFGHIJKLMNOPQRSTUVWXYZ0123456789_.-''
                then c else CHR ''-'') name = pre @ trimmed @ post
       \<and> set pre \<subseteq> set ''-.'' \<and> set post \<subseteq> set ''-.''
       \<and> (trimmed = [] \<or> (hd trimmed \<notin> set ''-.'' \<and> last trimmed \<notin> set ''-.''))
       \<and> sanitize_name name = (if trimmed = [] then ''container'' else trimmed))
   \<and> default_output_image None (sanitize_name name) ts
        = ''devc_to_docker/'' @ sanitize_name name @ '':'' @ ts
   \<and> default_intermediate_image None (default_output_image None (sanitize_name name) ts)
        = ''devc_to_docker/'' @ sanitize_name name @ '':'' @ ts @ ''-stage''
   \<and> sanitize_name ''My App!'' = ''My-App''
   \<and> default_output_image None (sanitize_name ''My App!'') ''20240101120000''
        = ''devc_to_docker/My-App:20240101120000''
   \<and> default_intermediate_image None
        (default_output_image None (sanitize_name ''My App!'') ''20240101120000'')
        = ''devc_to_docker/My-App:20240101120000-stage''"
proof -
  let ?r = "map (\<lambda>c. if name_char c then c else CHR ''-'') name"
  have r: "map (\<lambda>c. if c \<in> set ''abcdefghijklmnopqrstuvwxyzABCDEFGHIJKLMNOPQRSTUVWXYZ0123456789_.-''
                then c else CHR ''-'') name = ?r"
    by (simp only: name_char_class)
  from strip_decompose[of ?r "''-.''"] obtain pre post where
    d: "?r = pre @ strip ''-.'' ?r @ post" "set pre \<subseteq> set ''-.''" "set post \<subseteq> set ''-.''"
    by blast
  have e: "strip ''-.'' ?r = [] \<or> (hd (strip ''-.'' ?r) \<notin> set ''-.'' \<and> last (strip ''-.'' ?r) \<notin> set ''-.'')"
    using strip_ends[of "''-.''" ?r] by blast
  have s: "sanitize_name name = (if strip ''-.'' ?r = [] then ''container'' else strip ''-.'' ?r)"
    by (simp add: sanitize_name_def str_or_def Let_def)
  have first: "\<exists>pre trimmed post. ?r = pre @ trimmed @ post
       \<and> set pre \<subseteq> set ''-.'' \<and> set post \<subseteq> set ''-.''
       \<and> (trimmed = [] \<or> (hd trimmed \<notin> set ''-.'' \<and> last trimmed \<notin> set ''-.''))
       \<and> sanitize_name name = (if trimmed = [] then ''container'' else trimmed)"
    using d e s by blast
  show ?thesis
    unfolding r using first
    by (simp add: default_output_image_def default_intermediate_image_def sanitize_example)
qed


text \<open>
  Claim C4 says that the mount extractor returns exactly the entries of type \<^verbatim>\<open>bind\<close>
  whose source is a non-empty string, so that an entry with an empty or absent source is
  left out. The code tests \<^verbatim>\<open>not source\<close> on a path object, which is never true: a bind
  entry whose source is empty, or absent, is returned, with the source \<^verbatim>\<open>Path("")\<close>.
\<close>

theorem extract_bind_mounts_keeps_empty_source:
  "extract_bind_mounts [\<lparr>Type = Some ''bind'', Source = Some '''', Destination = Some ''/workspace''\<rparr>]
     = [\<lparr>source = \<lparr>root = '''', segments = []\<rparr>,
         BindMount.destination = \<lparr>root = ''/'', segments = [''workspace'']\<rparr>\<rparr>]
   \<and> extract_bind_mounts [\<lparr>Type = Some ''bind'', Source = None, Destination = Some ''/workspace''\<rparr>]
     = [\<lparr>source = \<lparr>root = '''', segments = []\<rparr>,
         BindMount.destination = \<lparr>root = ''/'', segments = [''workspace'']\<rparr>\<rparr>]"
  by code_simp

text \<open>
  Claim C5. When the inspection succeeds and no bind mount is extracted from the inspected
  mounts, the pipeline fails with \<open>NoBindMounts\<close> and the only effect it has performed is
  the inspection itself: no commit, no temporary directory, no copy, no disposable
  container.
\<close>

theorem no_bind_mounts_no_effects:
  assumes "which_docker w"
    and "docker_succeeds w [] [''inspect'', cid]"
    and "inspect_stdout w cid = info # rest"
    and "extract_bind_mounts (get_default (Mounts info) []) = []"
  shows "devc_to_docker w cid output_tag intermediate_tag temp_root keep_temp keep_intermediate
           = (Inl (NoBindMounts cid), [Docker [''inspect'', cid] True])"
  using assms
  by (simp add: devc_to_docker_def ensure_docker_available_def inspect_container_def
                run_docker_def Let_def)

theorem no_bind_mounts_no_effects_witness:
  "which_docker w_no_binds
   \<and> docker_succeeds w_no_binds [] [''inspect'', ''abc123'']
   \<and> inspect_stdout w_no_binds ''abc123'' = hd (inspect_stdout w_no_binds ''abc123'') # []
   \<and> extract_bind_mounts (get_default (Mounts (hd (inspect_stdout w_no_binds ''abc123''))) []) = []
   \<and> devc_to_docker w_no_binds ''abc123'' None None None False False
           = (Inl (NoBindMounts ''abc123''), [Docker [''inspect'', ''abc123''] True])"
proof -
  have a: "which_docker w_no_binds" by (simp add: w_no_binds_def w_ok_def)
  have b: "docker_succeeds w_no_binds [] [''inspect'', ''abc123'']" by (simp add: w_no_binds_def w_ok_def)
  have c: "inspect_stdout w_no_binds ''abc123'' = hd (inspect_stdout w_no_binds ''abc123'') # []"
    by (simp add: w_no_binds_def w_ok_def)
  have d: "extract_bind_mounts (get_default (Mounts (hd (inspect_stdout w_no_binds ''abc123''))) []) = []"
    by (simp add: w_no_binds_def w_ok_def example_info_def get_default_def)
  from a b c d no_bind_mounts_no_effects[OF a b c d, of None None None False False]
  show ?thesis by simp
qed

lemma cmd_name_simps [simp]:
  "cmd_name (Docker (a # args) b) = a"
  "cmd_name (Docker [] b) = []"
  "cmd_name (Fs op b) = []"
  "cmd_name (Warning m) = []"
  by (simp_all add: cmd_name_def)

lemma cmd_name_run_args [simp]: "cmd_name (Docker (run_args img name) b) = ''run''"
  by (simp add: run_args_def Let_def)

lemma run_args_inj: "run_args img name = run_args img' name' \<longleftrightarrow> img = img' \<and> name = name'"
  by (auto simp: run_args_def Let_def)

lemma is_mkdtemp_simps [simp]:
  "is_mkdtemp (Fs (Mkdtemp t) b)"
  "\<not> is_mkdtemp (Docker args b)"
  "\<not> is_mkdtemp (Fs (Rmtree t) b)"
  "\<not> is_mkdtemp (Fs (Mkdir t) b)"
  by (simp_all add: is_mkdtemp_def)

subsection \<open>Teardown\<close>

text \<open>
  Claim C1. In every run that fails after the disposable container was started (the
  \<^verbatim>\<open>docker run\<close> command succeeded, so the failure is raised in the guarded block: mount
  restore, metadata translation or final commit), the history ends with the teardown:
  \<^verbatim>\<open>docker stop\<close> and \<^verbatim>\<open>docker rm\<close> of the disposable container, whatever the outcome of
  either, and then the removal of the temporary directory unless \<open>keep_temp\<close> is set;
  and no \<^verbatim>\<open>docker rmi\<close> is issued, whatever \<open>keep_intermediate\<close> is. In every run,
  \<^verbatim>\<open>docker rmi\<close> is issued exactly when the run succeeds and \<open>keep_intermediate\<close> is
  not set. The container name is the one of the \<^verbatim>\<open>docker run\<close> command, the directory
  the one that \<^verbatim>\<open>mkdtemp\<close> made. (The metadata translation is a pure function of a
  well-typed configuration and has no failing branch of its own.)
\<close>

theorem teardown_after_failure:
  assumes run: "devc_to_docker w cid output_tag intermediate_tag temp_root keep_temp keep_intermediate = (res, tr)"
  shows "(isl res \<and> Docker (run_args img name) True \<in> set tr \<longrightarrow>
            (\<exists>pre tmp b1 b2 b3.
               tr = pre @ [Docker [''stop'', name] b1, Docker [''rm'', name] b2]
                        @ (if keep_temp then [] else [Fs (Rmtree tmp) b3])
               \<and> Docker (run_args img name) True \<in> set pre
               \<and> Fs (Mkdtemp tmp) True \<in> set pre
               \<and> (\<forall>t b. Fs (Mkdtemp t) b \<in> set tr \<longrightarrow> t = tmp))
            \<and> \<not> rmi_issued tr)
       \<and> (rmi_issued tr \<longleftrightarrow> (\<not> isl res \<and> \<not> keep_intermediate))"
proof -
  define slug where "slug = sanitize_name (container_name (hd (inspect_stdout w cid)) cid)"
  define out where "out = default_output_image output_tag slug (utcnow w)"
  define stg where "stg = default_intermediate_image intermediate_tag out"
  define nm where "nm = temp_container_name slug (utcnow w)"
  note shape = devc_to_docker_shape[OF run, folded slug_def, folded out_def, folded stg_def, folded nm_def]
  from shape show ?thesis
  proof (elim disjE exE conjE)
    assume e: "isl res"
      and evs: "\<forall>ev\<in>set tr. cmd_name ev \<in> {''inspect'', ''commit'', []} \<or> ev = Docker (run_args stg nm) False"
    have a: "Docker (run_args img name) True \<notin> set tr"
    proof
      assume "Docker (run_args img name) True \<in> set tr"
      with evs have "cmd_name (Docker (run_args img name) True) \<in> {''inspect'', ''commit'', []}
                     \<or> Docker (run_args img name) True = Docker (run_args stg nm) False" by blast
      then show False by simp
    qed
    have b: "\<not> rmi_issued tr"
    proof
      assume "rmi_issued tr"
      then obtain ev where "ev \<in> set tr" "cmd_name ev = ''rmi''" by (auto simp: rmi_issued_def list_ex_iff)
      with evs show False by auto
    qed
    from e a b show ?thesis by simp
  next
    fix p0 root1 tmp p1 body b1 b2 b3 post
    assume tr: "tr = p0 @ [Fs (Mkdir root1) True, Fs (Mkdtemp tmp) True] @ p1 @ [Docker (run_args stg nm) True] @ body
                 @ [Docker [''stop'', nm] b1, Docker [''rm'', nm] b2]
                 @ (if keep_temp then [] else [Fs (Rmtree tmp) b3]) @ post"
      and p0: "\<forall>ev\<in>set p0. cmd_name ev \<in> {''inspect'', ''commit''}"
      and p1: "\<forall>ev\<in>set p1. cmd_name ev = [] \<and> \<not> is_mkdtemp ev"
      and body: "\<forall>ev\<in>set body. cmd_name ev \<in> {''exec'', ''cp'', ''commit'', []} \<and> \<not> is_mkdtemp ev"
      and res: "case res of Inl e \<Rightarrow> post = []
                | Inr r \<Rightarrow> final_image r = out \<and> intermediate_image r = stg \<and> temp_dir r = tmp
                           \<and> container_id r = cid
                           \<and> (\<exists>b4. post = (if keep_intermediate then []
                                     else Docker [''rmi'', stg] b4
                                          # (if b4 then [] else [Warning (''could not remove intermediate image '' @ stg)])))"
    define pre where "pre = p0 @ [Fs (Mkdir root1) True, Fs (Mkdtemp tmp) True] @ p1 @ [Docker (run_args stg nm) True] @ body"
    have pre_rmi: "\<forall>ev\<in>set pre. cmd_name ev \<noteq> ''rmi''"
      using p0 p1 body by (auto simp: pre_def)
    have pre_run: "\<forall>ev\<in>set pre. cmd_name ev = ''run'' \<longrightarrow> ev = Docker (run_args stg nm) True"
      using p0 p1 body by (auto simp: pre_def)
    have pre_mk: "\<forall>t b. Fs (Mkdtemp t) b \<in> set pre \<longrightarrow> t = tmp"
    proof (intro allI impI)
      fix t b assume "Fs (Mkdtemp t) b \<in> set pre"
      then consider "Fs (Mkdtemp t) b \<in> set p0" | "t = tmp" | "Fs (Mkdtemp t) b \<in> set p1" | "Fs (Mkdtemp t) b \<in> set body"
        by (auto simp: pre_def)
      then show "t = tmp"
      proof cases
        case 1 with p0 have "cmd_name (Fs (Mkdtemp t) b) \<in> {''inspect'', ''commit''}" by blast
        then show ?thesis by simp
      next
        case 2 then show ?thesis .
      next
        case 3 with p1 have "\<not> is_mkdtemp (Fs (Mkdtemp t) b)" by blast
        then show ?thesis by simp
      next
        case 4 with body have "\<not> is_mkdtemp (Fs (Mkdtemp t) b)" by blast
        then show ?thesis by simp
      qed
    qed
    have trp: "tr = pre @ [Docker [''stop'', nm] b1, Docker [''rm'', nm] b2]
                 @ (if keep_temp then [] else [Fs (Rmtree tmp) b3]) @ post"
      using tr by (simp add: pre_def)
    have mk_in: "Fs (Mkdtemp tmp) True \<in> set pre" and run_in: "Docker (run_args stg nm) True \<in> set pre"
      by (simp_all add: pre_def)
    show ?thesis
    proof (cases res)
      case (Inl e)
      with res have post: "post = []" by simp
      have trp': "tr = pre @ [Docker [''stop'', nm] b1, Docker [''rm'', nm] b2]
                 @ (if keep_temp then [] else [Fs (Rmtree tmp) b3])"
        using trp post by simp
      have nrmi: "\<not> rmi_issued tr"
        using pre_rmi by (auto simp: trp post rmi_issued_def list_ex_iff)
      have mk_all: "\<forall>t b. Fs (Mkdtemp t) b \<in> set tr \<longrightarrow> t = tmp"
        using pre_mk by (auto simp: trp post)
      have first: "Docker (run_args img name) True \<in> set tr \<longrightarrow>
            (\<exists>pre tmp b1 b2 b3.
               tr = pre @ [Docker [''stop'', name] b1, Docker [''rm'', name] b2]
                        @ (if keep_temp then [] else [Fs (Rmtree tmp) b3])
               \<and> Docker (run_args img name) True \<in> set pre
               \<and> Fs (Mkdtemp tmp) True \<in> set pre
               \<and> (\<forall>t b. Fs (Mkdtemp t) b \<in> set tr \<longrightarrow> t = tmp))"
      proof
        assume m: "Docker (run_args img name) True \<in> set tr"
        have "\<forall>ev\<in>set tr. cmd_name ev = ''run'' \<longrightarrow> ev \<in> set pre"
          by (auto simp: trp post)
        with m have "Docker (run_args img name) True \<in> set pre" by auto
        with pre_run have "Docker (run_args img name) True = Docker (run_args stg nm) True" by auto
        then have eq: "name = nm" "img = stg" by (auto simp: run_args_inj)
        show "\<exists>pre tmp b1 b2 b3.
               tr = pre @ [Docker [''stop'', name] b1, Docker [''rm'', name] b2]
                        @ (if keep_temp then [] else [Fs (Rmtree tmp) b3])
               \<and> Docker (run_args img name) True \<in> set pre
               \<and> Fs (Mkdtemp tmp) True \<in> set pre
               \<and> (\<forall>t b. Fs (Mkdtemp t) b \<in> set tr \<longrightarrow> t = tmp)"
          unfolding eq using trp' mk_in run_in mk_all by blast
      qed
      from first nrmi Inl show ?thesis by simp
    next
      case (Inr r)
      with res obtain b4 where post: "post = (if keep_intermediate then []
                                     else Docker [''rmi'', stg] b4
                                          # (if b4 then [] else [Warning (''could not remove intermediate image '' @ stg)]))"
        by auto
      have "rmi_issued tr \<longleftrightarrow> \<not> keep_intermediate"
        using pre_rmi by (auto simp: trp post rmi_issued_def list_ex_iff)
      with Inr show ?thesis by simp
    qed
  qed
qed

theorem teardown_after_failure_witness:
  "isl (fst (devc_to_docker w_commit_fails ''abc123'' None None None False True))
   \<and> Docker (run_args ''devc_to_docker/My-App:20240101120000-stage''
                        ''devc-to-docker-My-App-20240101120000'') True
       \<in> set (snd (devc_to_docker w_commit_fails ''abc123'' None None None False True))
   \<and> (\<exists>pre b1 b2 b3.
         snd (devc_to_docker w_commit_fails ''abc123'' None None None False True)
           = pre @ [Docker [''stop'', ''devc-to-docker-My-App-20240101120000''] b1,
                    Docker [''rm'', ''devc-to-docker-My-App-20240101120000''] b2,
                    Fs (Rmtree (Path ''/tmp/devc_to_docker_abc'')) b3])
   \<and> \<not> rmi_issued (snd (devc_to_docker w_commit_fails ''abc123'' None None None False True))"
proof -
  let ?R = "devc_to_docker w_commit_fails ''abc123'' None None None False True"
  have r: "?R = (fst ?R, snd ?R)" by simp
  have h1: "isl (fst ?R)" by code_simp
  have h2: "Docker (run_args ''devc_to_docker/My-App:20240101120000-stage''
                        ''devc-to-docker-My-App-20240101120000'') True \<in> set (snd ?R)"
    by code_simp
  have h3: "Fs (Mkdtemp (Path ''/tmp/devc_to_docker_abc'')) True \<in> set (snd ?R)"
    by code_simp
  from teardown_after_failure[OF r, of "''devc_to_docker/My-App:20240101120000-stage''"
         "''devc-to-docker-My-App-20240101120000''"] h1 h2
  obtain pre tmp b1 b2 b3 where
    t: "snd ?R = pre @ [Docker [''stop'', ''devc-to-docker-My-App-20240101120000''] b1,
                    Docker [''rm'', ''devc-to-docker-My-App-20240101120000''] b2]
                  @ (if False then [] else [Fs (Rmtree tmp) b3])"
    and u: "\<forall>t b. Fs (Mkdtemp t) b \<in> set (snd ?R) \<longrightarrow> t = tmp"
    and n: "\<not> rmi_issued (snd ?R)"
    by blast
  from u h3 have "tmp = Path ''/tmp/devc_to_docker_abc''" by blast
  with t have "\<exists>pre b1 b2 b3. snd ?R = pre @ [Docker [''stop'', ''devc-to-docker-My-App-20240101120000''] b1,
                    Docker [''rm'', ''devc-to-docker-My-App-20240101120000''] b2,
                    Fs (Rmtree (Path ''/tmp/devc_to_docker_abc'')) b3]"
    by auto
  with h1 h2 n show ?thesis by blast
qed

text \<open>
  Claim C2 says that a fatal failure after the temp directory was made (during snapshot
  staging, or while starting the disposable container) still runs the teardown, so that
  the temp directory is removed unless \<open>keep_temp\<close> is set. In the code the guarded
  block starts after the disposable container was started: where the source of the bind
  mount is missing, and where \<^verbatim>\<open>docker run\<close> fails, the run ends with the error and the
  temp directory is made and never removed, with \<open>keep_temp\<close> not set.
\<close>

theorem temp_dir_left_after_early_failure:
  "devc_to_docker w_source_missing ''abc123'' None None None False False
     = (Inl (SourceMissing (Path ''/host/proj'')),
        [Docker [''inspect'', ''abc123''] True,
         Docker [''commit'', ''abc123'', ''devc_to_docker/My-App:20240101120000-stage''] True,
         Fs (Mkdir (Path ''/tmp'')) True,
         Fs (Mkdtemp (Path ''/tmp/devc_to_docker_abc'')) True])
   \<and> devc_to_docker w_run_fails ''abc123'' None None None False False
     = (Inl (CalledProcessError
               (''docker'' # run_args ''devc_to_docker/My-App:20240101120000-stage''
                                      ''devc-to-docker-My-App-20240101120000'')),
        [Docker [''inspect'', ''abc123''] True,
         Docker [''commit'', ''abc123'', ''devc_to_docker/My-App:20240101120000-stage''] True,
         Fs (Mkdir (Path ''/tmp'')) True,
         Fs (Mkdtemp (Path ''/tmp/devc_to_docker_abc'')) True,
         Fs (Mkdir (Path ''/tmp/devc_to_docker_abc'')) True,
         Fs (Copytree (Path ''/host/proj'') (Path ''/tmp/devc_to_docker_abc/workspace'')) True,
         Docker (run_args ''devc_to_docker/My-App:20240101120000-stage''
                          ''devc-to-docker-My-App-20240101120000'') False])"
  by code_simp

subsection \<open>Fallback to the container id\<close>

text \<open>
  Claim C10. When the inspected metadata has no \<open>Name\<close>, or a name that is empty once
  the leading slashes are stripped, the container name is the \<open>container_id\<close> argument:
  every \<^verbatim>\<open>docker run\<close> command of the run names the disposable container
  \<^verbatim>\<open>devc-to-docker-<slug>-<timestamp>\<close> (cut to 60 characters), and with no tags
  supplied it starts it from \<^verbatim>\<open>devc_to_docker/<slug>:<timestamp>-stage\<close> and a successful
  run returns the tags \<^verbatim>\<open>devc_to_docker/<slug>:<timestamp>\<close> and the same followed by
  \<^verbatim>\<open>-stage\<close>, where the slug is the sanitised \<open>container_id\<close>.
\<close>

theorem container_id_fallback:
  assumes "Name info = None \<or> lstrip ''/'' (the (Name info)) = []"
  shows "container_name info cid = cid
       \<and> (inspect_stdout w cid = info # rest
            \<and> devc_to_docker w cid output_tag intermediate_tag temp_root keep_temp keep_intermediate
                = (res, tr)
          \<longrightarrow> (\<forall>ev\<in>set tr. cmd_name ev = ''run'' \<longrightarrow>
                  (\<exists>img b. ev = Docker (run_args img (temp_container_name (sanitize_name cid) (utcnow w))) b))
              \<and> (output_tag = None \<and> intermediate_tag = None \<longrightarrow>
                   (\<forall>ev\<in>set tr. cmd_name ev = ''run'' \<longrightarrow>
                      (\<exists>b. ev = Docker (run_args (''devc_to_docker/'' @ sanitize_name cid @ '':'' @ utcnow w
                                                   @ ''-stage'')
                                                 (temp_container_name (sanitize_name cid) (utcnow w))) b))
                   \<and> (\<forall>r. res = Inr r \<longrightarrow>
                         final_image r = ''devc_to_docker/'' @ sanitize_name cid @ '':'' @ utcnow w
                         \<and> intermediate_image r
                             = ''devc_to_docker/'' @ sanitize_name cid @ '':'' @ utcnow w @ ''-stage'')))"
proof -
  have cn: "container_name info cid = cid"
  proof (cases "Name info")
    case None
    then show ?thesis
      by (simp add: container_name_def get_default_def str_or_def lstrip_def)
  next
    case (Some n)
    with assms have "lstrip ''/'' n = []" by simp
    with Some show ?thesis
      by (simp add: container_name_def get_default_def str_or_def)
  qed
  define out where "out = default_output_image output_tag (sanitize_name cid) (utcnow w)"
  define stg where "stg = default_intermediate_image intermediate_tag out"
  define nm where "nm = temp_container_name (sanitize_name cid) (utcnow w)"
  have pipe: "(\<forall>ev\<in>set tr. cmd_name ev = ''run'' \<longrightarrow> (\<exists>b. ev = Docker (run_args stg nm) b))
              \<and> (\<forall>r. res = Inr r \<longrightarrow> final_image r = out \<and> intermediate_image r = stg)"
    if i: "inspect_stdout w cid = info # rest"
      and run: "devc_to_docker w cid output_tag intermediate_tag temp_root keep_temp keep_intermediate
                  = (res, tr)"
  proof -
    have hd: "hd (inspect_stdout w cid) = info" using i by simp
    have shape: "(isl res \<and> (\<forall>ev\<in>set tr. cmd_name ev \<in> {''inspect'', ''commit'', []}
                                     \<or> ev = Docker (run_args stg nm) False))
       \<or> (\<exists>p0 root1 tmp p1 body b1 b2 b3 post.
            tr = p0 @ [Fs (Mkdir root1) True, Fs (Mkdtemp tmp) True] @ p1 @ [Docker (run_args stg nm) True] @ body
                 @ [Docker [''stop'', nm] b1, Docker [''rm'', nm] b2]
                 @ (if keep_temp then [] else [Fs (Rmtree tmp) b3]) @ post
            \<and> (\<forall>ev\<in>set p0. cmd_name ev \<in> {''inspect'', ''commit''})
            \<and> (\<forall>ev\<in>set p1. cmd_name ev = [] \<and> \<not> is_mkdtemp ev)
            \<and> (\<forall>ev\<in>set body. cmd_name ev \<in> {''exec'', ''cp'', ''commit'', []} \<and> \<not> is_mkdtemp ev)
            \<and> (case res of
                  Inl e \<Rightarrow> post = []
                | Inr r \<Rightarrow> final_image r = out \<and> intermediate_image r = stg \<and> temp_dir r = tmp
                           \<and> container_id r = cid
                           \<and> (\<exists>b4. post = (if keep_intermediate then []
                                     else Docker [''rmi'', stg] b4
                                          # (if b4 then [] else [Warning (''could not remove intermediate image '' @ stg)])))))"
      using devc_to_docker_shape[OF run] unfolding hd cn out_def stg_def nm_def .
    from shape show ?thesis
    proof (elim disjE exE conjE)
      assume "\<forall>ev\<in>set tr. cmd_name ev \<in> {''inspect'', ''commit'', []} \<or> ev = Docker (run_args stg nm) False"
        and "isl res"
      then show ?thesis by (cases res) auto
    next
      fix p0 root1 tmp p1 body b1 b2 b3 post
      assume tr: "tr = p0 @ [Fs (Mkdir root1) True, Fs (Mkdtemp tmp) True] @ p1 @ [Docker (run_args stg nm) True] @ body
                 @ [Docker [''stop'', nm] b1, Docker [''rm'', nm] b2]
                 @ (if keep_temp then [] else [Fs (Rmtree tmp) b3]) @ post"
        and p0: "\<forall>ev\<in>set p0. cmd_name ev \<in> {''inspect'', ''commit''}"
        and p1: "\<forall>ev\<in>set p1. cmd_name ev = [] \<and> \<not> is_mkdtemp ev"
        and body: "\<forall>ev\<in>set body. cmd_name ev \<in> {''exec'', ''cp'', ''commit'', []} \<and> \<not> is_mkdtemp ev"
        and res: "case res of Inl e \<Rightarrow> post = []
                | Inr r \<Rightarrow> final_image r = out \<and> intermediate_image r = stg \<and> temp_dir r = tmp
                           \<and> container_id r = cid
                           \<and> (\<exists>b4. post = (if keep_intermediate then []
                                     else Docker [''rmi'', stg] b4
                                          # (if b4 then [] else [Warning (''could not remove intermediate image '' @ stg)])))"
      have postn: "\<forall>ev\<in>set post. cmd_name ev \<noteq> ''run''"
        using res by (cases res) (auto split: if_splits)
      have a: "\<forall>ev\<in>set tr. cmd_name ev = ''run'' \<longrightarrow> ev = Docker (run_args stg nm) True"
        using p0 p1 body postn by (auto simp: tr)
      have b: "\<forall>r. res = Inr r \<longrightarrow> final_image r = out \<and> intermediate_image r = stg"
        using res by auto
      from a b show ?thesis by blast
    qed
  qed
  have o: "output_tag = None \<Longrightarrow> out = ''devc_to_docker/'' @ sanitize_name cid @ '':'' @ utcnow w"
    by (simp add: out_def default_output_image_def)
  have s: "output_tag = None \<Longrightarrow> intermediate_tag = None
            \<Longrightarrow> stg = ''devc_to_docker/'' @ sanitize_name cid @ '':'' @ utcnow w @ ''-stage''"
    by (simp add: stg_def o default_intermediate_image_def)
  show ?thesis
  proof (intro conjI impI)
    show "container_name info cid = cid" by (rule cn)
  next
    assume a: "inspect_stdout w cid = info # rest
            \<and> devc_to_docker w cid output_tag intermediate_tag temp_root keep_temp keep_intermediate
                = (res, tr)"
    with pipe show "\<forall>ev\<in>set tr. cmd_name ev = ''run'' \<longrightarrow>
                  (\<exists>img b. ev = Docker (run_args img (temp_container_name (sanitize_name cid) (utcnow w))) b)"
      unfolding nm_def by blast
  next
    assume a: "inspect_stdout w cid = info # rest
            \<and> devc_to_docker w cid output_tag intermediate_tag temp_root keep_temp keep_intermediate
                = (res, tr)"
      and n: "output_tag = None \<and> intermediate_tag = None"
    from pipe a have "\<forall>ev\<in>set tr. cmd_name ev = ''run'' \<longrightarrow> (\<exists>b. ev = Docker (run_args stg nm) b)"
      by blast
    then show "\<forall>ev\<in>set tr. cmd_name ev = ''run'' \<longrightarrow>
                      (\<exists>b. ev = Docker (run_args (''devc_to_docker/'' @ sanitize_name cid @ '':'' @ utcnow w
                                                   @ ''-stage'')
                                                 (temp_container_name (sanitize_name cid) (utcnow w))) b)"
      using s n unfolding nm_def by simp
  next
    assume a: "inspect_stdout w cid = info # rest
            \<and> devc_to_docker w cid output_tag intermediate_tag temp_root keep_temp keep_intermediate
                = (res, tr)"
      and n: "output_tag = None \<and> intermediate_tag = None"
    from pipe a have "\<forall>r. res = Inr r \<longrightarrow> final_image r = out \<and> intermediate_image r = stg"
      by blast
    then show "\<forall>r. res = Inr r \<longrightarrow>
                         final_image r = ''devc_to_docker/'' @ sanitize_name cid @ '':'' @ utcnow w
                         \<and> intermediate_image r
                             = ''devc_to_docker/'' @ sanitize_name cid @ '':'' @ utcnow w @ ''-stage''"
      using o s n by simp
  qed
qed

theorem container_id_fallback_witness:
  "Name (example_info\<lparr>Name := None\<rparr>) = None
   \<and> container_name (example_info\<lparr>Name := None\<rparr>) ''abc123'' = ''abc123''
   \<and> inspect_stdout w_no_name ''abc123'' = (example_info\<lparr>Name := None\<rparr>) # []
   \<and> \<not> isl (fst (devc_to_docker w_no_name ''abc123'' None None None False False))
   \<and> final_image (projr (fst (devc_to_docker w_no_name ''abc123'' None None None False False)))
       = ''devc_to_docker/abc123:20240101120000''
   \<and> intermediate_image (projr (fst (devc_to_docker w_no_name ''abc123'' None None None False False)))
       = ''devc_to_docker/abc123:20240101120000-stage''
   \<and> Docker (run_args ''devc_to_docker/abc123:20240101120000-stage''
                        ''devc-to-docker-abc123-20240101120000'') True
       \<in> set (snd (devc_to_docker w_no_name ''abc123'' None None None False False))"
proof -
  let ?i = "example_info\<lparr>Name := None\<rparr>"
  let ?R = "devc_to_docker w_no_name ''abc123'' None None None False False"
  have n: "Name ?i = None" by simp
  then have h: "Name ?i = None \<or> lstrip ''/'' (the (Name ?i)) = []" by simp
  have i: "inspect_stdout w_no_name ''abc123'' = ?i # []" by (simp add: w_no_name_def w_ok_def)
  have ok: "\<not> isl (fst ?R)" by code_simp
  then have r: "?R = (Inr (projr (fst ?R)), snd ?R)" by (simp add: prod_eq_iff)
  have s: "sanitize_name ''abc123'' = ''abc123''" by code_simp
  have u: "utcnow w_no_name = ''20240101120000''" by (simp add: w_no_name_def w_ok_def)
  have t: "temp_container_name ''abc123'' ''20240101120000'' = ''devc-to-docker-abc123-20240101120000''"
    by code_simp
  have e: "list_ex (\<lambda>ev. case ev of Docker a b \<Rightarrow> cmd_name ev = ''run'' \<and> b | _ \<Rightarrow> False) (snd ?R)"
    by code_simp
  from container_id_fallback[OF h, where cid = "''abc123''" and w = w_no_name and rest = "[]"
         and output_tag = None and intermediate_tag = None
         and temp_root = None and keep_temp = False and keep_intermediate = False
         and res = "Inr (projr (fst ?R))" and tr = "snd ?R"] i r
  have c: "container_name ?i ''abc123'' = ''abc123''"
    and f: "final_image (projr (fst ?R)) = ''devc_to_docker/'' @ sanitize_name ''abc123'' @ '':'' @ utcnow w_no_name"
    and g: "intermediate_image (projr (fst ?R))
              = ''devc_to_docker/'' @ sanitize_name ''abc123'' @ '':'' @ utcnow w_no_name @ ''-stage''"
    and k: "\<forall>ev\<in>set (snd ?R). cmd_name ev = ''run'' \<longrightarrow>
              (\<exists>b. ev = Docker (run_args (''devc_to_docker/'' @ sanitize_name ''abc123'' @ '':'' @ utcnow w_no_name
                                           @ ''-stage'')
                                         (temp_container_name (sanitize_name ''abc123'') (utcnow w_no_name))) b)"
    by simp_all
  from f g have fg: "final_image (projr (fst ?R)) = ''devc_to_docker/abc123:20240101120000''"
    "intermediate_image (projr (fst ?R)) = ''devc_to_docker/abc123:20240101120000-stage''"
    by (simp_all add: s u)
  from e obtain ev where m: "ev \<in> set (snd ?R)"
    and cs: "case ev of Docker a b \<Rightarrow> cmd_name ev = ''run'' \<and> b | _ \<Rightarrow> False"
    by (auto simp: list_ex_iff)
  from cs have "cmd_name ev = ''run'' \<and> (\<forall>a b. ev = Docker a b \<longrightarrow> b)" by (cases ev) auto
  with m have ev: "ev \<in> set (snd ?R)" "cmd_name ev = ''run''" "\<forall>a b. ev = Docker a b \<longrightarrow> b"
    by blast+
  with k obtain b where "ev = Docker (run_args (''devc_to_docker/'' @ sanitize_name ''abc123'' @ '':'' @ utcnow w_no_name
                                           @ ''-stage'')
                                         (temp_container_name (sanitize_name ''abc123'') (utcnow w_no_name))) b"
    by blast
  with ev have "Docker (run_args ''devc_to_docker/abc123:20240101120000-stage''
                        ''devc-to-docker-abc123-20240101120000'') True \<in> set (snd ?R)"
    by (simp add: s u t)
  with n c i ok fg show ?thesis by blast
qed

subsection \<open>Paths\<close>


lemma split_slash_id: "CHR ''/'' \<notin> set s \<Longrightarrow> split_slash s = [s]"
  by (induction s) auto



lemma Path_empty: "Path [] = \<lparr>root = [], segments = []\<rparr>"
  by (simp add: Path_def parse_root_def)

lemma Path_segment: "wf_segment s \<Longrightarrow> Path s = \<lparr>root = [], segments = [s]\<rparr>"
  by (cases s) (auto simp: Path_def parse_root_def wf_segment_def split_slash_id)

lemma foldl_truediv_segments:
  "list_all wf_segment ps \<Longrightarrow>
     foldl truediv p (map Path ps) = \<lparr>root = root p, segments = segments p @ ps\<rparr>"
proof (induction ps arbitrary: p)
  case Nil
  then show ?case by simp
next
  case (Cons x xs)
  then have "truediv p (Path x) = \<lparr>root = root p, segments = segments p @ [x]\<rparr>"
    by (simp add: Path_segment truediv_def)
  with Cons show ?case by simp
qed

lemma Path_of_parts_segments:
  "list_all wf_segment ps \<Longrightarrow> Path_of_parts ps = \<lparr>root = [], segments = ps\<rparr>"
  by (simp add: Path_of_parts_def foldl_truediv_segments Path_empty)


subsection \<open>Snapshot staging\<close>

lemma copy_one_host_path:
  assumes wf: "wf_path (BindMount.destination m)"
    and run: "copy_bind_mount_to_tmp w tr m tmp = (Inr c, tr')"
  shows "CopySpec.destination c = BindMount.destination m
       \<and> host_path c = \<lparr>root = root tmp, segments = segments tmp @ segments (BindMount.destination m)\<rparr>
       \<and> (is_absolute (BindMount.destination m) \<longrightarrow> segments (BindMount.destination m) \<noteq> [])
       \<and> tr' \<noteq> []
       \<and> (last tr' = Fs (Copytree (source m) (host_path c)) True
            \<or> last tr' = Fs (Copy2 (source m) (host_path c)) True)"
proof -
  let ?d = "BindMount.destination m"
  define relative where "relative = (if is_absolute ?d then Path_of_parts (drop 1 (parts ?d)) else ?d)"
  have segs: "list_all wf_segment (segments ?d)" using wf by (simp add: wf_path_def)
  have ne: "is_absolute ?d \<longrightarrow> segments ?d \<noteq> []"
    using run unfolding copy_bind_mount_to_tmp_def Let_def
    by (auto simp: parts_def is_absolute_def split: if_splits)
  have rel: "relative = \<lparr>root = [], segments = segments ?d\<rparr>"
  proof (cases "is_absolute ?d")
    case True
    then have "drop 1 (parts ?d) = segments ?d" by (simp add: parts_def is_absolute_def)
    with True segs show ?thesis by (simp add: relative_def Path_of_parts_segments)
  next
    case False
    then show ?thesis by (simp add: relative_def is_absolute_def)
  qed
  have ht: "truediv tmp relative = \<lparr>root = root tmp, segments = segments tmp @ segments ?d\<rparr>"
    by (simp add: rel truediv_def)
  have sel: "(if is_absolute ?d
                 then (if drop 1 (parts ?d) = [] then Inl InvalidDestination
                       else Inr (Path_of_parts (drop 1 (parts ?d))))
                 else Inr ?d) = Inr relative"
    using ne by (auto simp: relative_def parts_def is_absolute_def)
  from run have "CopySpec.destination c = ?d \<and> host_path c = truediv tmp relative
       \<and> tr' \<noteq> []
       \<and> (last tr' = Fs (Copytree (source m) (truediv tmp relative)) True
            \<or> last tr' = Fs (Copy2 (source m) (truediv tmp relative)) True)"
    unfolding copy_bind_mount_to_tmp_def Let_def sel
    by (auto split: if_splits sum.splits prod.splits dest!: fs_trace)
  with ne show ?thesis by (simp add: ht)
qed


lemma copy_append:
  "copy_bind_mounts_to_tmp w tr (xs @ ys) tmp =
     (case copy_bind_mounts_to_tmp w tr xs tmp of
        (Inl e, t) \<Rightarrow> (Inl e, t)
      | (Inr cs, t) \<Rightarrow>
          (case copy_bind_mounts_to_tmp w t ys tmp of
             (Inl e, t') \<Rightarrow> (Inl e, t')
           | (Inr cs', t') \<Rightarrow> (Inr (cs @ cs'), t')))"
  by (induction xs arbitrary: tr) (auto split: prod.splits sum.splits)

lemma copy_one_root:
  assumes "is_absolute (BindMount.destination r)" "segments (BindMount.destination r) = []"
  shows "copy_bind_mount_to_tmp w tr r tmp =
           (Inl (if path_exists w tr (source r) then InvalidDestination
                 else SourceMissing (source r)), tr)"
  using assms by (simp add: copy_bind_mount_to_tmp_def Let_def parts_def is_absolute_def)






text \<open>
  Claim C3 says that a bind mount with the destination \<^verbatim>\<open>/\<close> is rejected before any copy
  of any mount content begins. The stager checks each mount when the loop reaches it: with
  a first mount to \<^verbatim>\<open>/a\<close> and a second one to \<^verbatim>\<open>/\<close>, the content of the first is
  copied, and then the second is rejected.
\<close>

theorem root_destination_counterexample:
  "copy_bind_mounts_to_tmp w_ok []
     [\<lparr>source = Path ''/host/a'', BindMount.destination = Path ''/a''\<rparr>,
      \<lparr>source = Path ''/host/b'', BindMount.destination = Path ''/''\<rparr>]
     (Path ''/tmp/t'')
   = (Inl InvalidDestination,
      [Fs (Mkdir (Path ''/tmp/t'')) True,
       Fs (Copytree (Path ''/host/a'') (Path ''/tmp/t/a'')) True])"
  by code_simp

text \<open>
  Claim C3, amended. A bind mount with an absolute destination \<^verbatim>\<open>/x/y\<close> that the stager
  stages is staged at \<^verbatim>\<open><temp_dir>/x/y\<close>: the host path has the root and the segments of
  the temp directory followed by the segments of the destination, and the last effect of
  staging it is the copy of the source to that path; where the source exists and the file
  system calls succeed, the mount is staged. A bind mount whose destination is absolute
  with no segment (\<^verbatim>\<open>/\<close>) is rejected when the loop reaches it, with \<open>InvalidDestination\<close>
  if its source exists and with \<open>SourceMissing\<close> otherwise, and with no further effect:
  nothing of it or of a later mount is copied, and the history is the one of staging the
  mounts before it.
\<close>

theorem staged_path_and_root_rejection:
  "(wf_path (BindMount.destination m) \<and> is_absolute (BindMount.destination m)
      \<and> copy_bind_mount_to_tmp w tr m tmp = (Inr c, tr')
    \<longrightarrow> segments (BindMount.destination m) \<noteq> []
        \<and> host_path c = \<lparr>root = root tmp,
                          segments = segments tmp @ segments (BindMount.destination m)\<rparr>
        \<and> (\<exists>pre. tr' = pre @ [Fs (Copytree (source m) (host_path c)) True]
                 \<or> tr' = pre @ [Fs (Copy2 (source m) (host_path c)) True]))
   \<and> (wf_path (BindMount.destination m) \<and> is_absolute (BindMount.destination m)
      \<and> segments (BindMount.destination m) \<noteq> []
      \<and> path_exists w tr (source m) \<and> (\<forall>t op. fs_succeeds w t op)
    \<longrightarrow> (\<exists>tr'. copy_bind_mount_to_tmp w tr m tmp
                  = (Inr \<lparr>CopySpec.destination = BindMount.destination m,
                          host_path = \<lparr>root = root tmp,
                                       segments = segments tmp @ segments (BindMount.destination m)\<rparr>\<rparr>,
                     tr')))
   \<and> (is_absolute (BindMount.destination r) \<and> segments (BindMount.destination r) = []
    \<longrightarrow> copy_bind_mounts_to_tmp w tr (before @ r # after) tmp =
          (case copy_bind_mounts_to_tmp w tr before tmp of
             (Inl e, t) \<Rightarrow> (Inl e, t)
           | (Inr cs, t) \<Rightarrow>
               (Inl (if path_exists w t (source r) then InvalidDestination
                     else SourceMissing (source r)), t)))"
proof (intro conjI impI)
  assume a: "wf_path (BindMount.destination m) \<and> is_absolute (BindMount.destination m)
      \<and> copy_bind_mount_to_tmp w tr m tmp = (Inr c, tr')"
  then have wf: "wf_path (BindMount.destination m)" and ab: "is_absolute (BindMount.destination m)"
    and run: "copy_bind_mount_to_tmp w tr m tmp = (Inr c, tr')" by simp_all
  note h = copy_one_host_path[OF wf run]
  from h ab show "segments (BindMount.destination m) \<noteq> []" by simp
  from h show "host_path c = \<lparr>root = root tmp,
                          segments = segments tmp @ segments (BindMount.destination m)\<rparr>" by simp
  from h have ne: "tr' \<noteq> []" and l: "last tr' = Fs (Copytree (source m) (host_path c)) True
            \<or> last tr' = Fs (Copy2 (source m) (host_path c)) True" by blast+
  from ne have "tr' = butlast tr' @ [last tr']" by simp
  with l show "\<exists>pre. tr' = pre @ [Fs (Copytree (source m) (host_path c)) True]
                 \<or> tr' = pre @ [Fs (Copy2 (source m) (host_path c)) True]"
    by metis
next
  assume a: "wf_path (BindMount.destination m) \<and> is_absolute (BindMount.destination m)
      \<and> segments (BindMount.destination m) \<noteq> []
      \<and> path_exists w tr (source m) \<and> (\<forall>t op. fs_succeeds w t op)"
  let ?d = "BindMount.destination m"
  from a have segs: "list_all wf_segment (segments ?d)" by (simp add: wf_path_def)
  from a have dr: "drop 1 (parts ?d) = segments ?d" by (simp add: parts_def is_absolute_def)
  have pp: "Path_of_parts (segments ?d) = \<lparr>root = [], segments = segments ?d\<rparr>"
    using segs by (rule Path_of_parts_segments)
  have ht: "truediv tmp \<lparr>root = [], segments = segments ?d\<rparr>
              = \<lparr>root = root tmp, segments = segments tmp @ segments ?d\<rparr>"
    by (simp add: truediv_def)
  from a show "\<exists>tr'. copy_bind_mount_to_tmp w tr m tmp
                  = (Inr \<lparr>CopySpec.destination = ?d,
                          host_path = \<lparr>root = root tmp, segments = segments tmp @ segments ?d\<rparr>\<rparr>,
                     tr')"
    unfolding copy_bind_mount_to_tmp_def Let_def dr pp ht
    by (simp add: fs_def truediv_def)
next
  assume a: "is_absolute (BindMount.destination r) \<and> segments (BindMount.destination r) = []"
  then have one: "\<And>t. copy_bind_mount_to_tmp w t r tmp =
           (Inl (if path_exists w t (source r) then InvalidDestination
                 else SourceMissing (source r)), t)"
    by (simp add: copy_one_root)
  show "copy_bind_mounts_to_tmp w tr (before @ r # after) tmp =
          (case copy_bind_mounts_to_tmp w tr before tmp of
             (Inl e, t) \<Rightarrow> (Inl e, t)
           | (Inr cs, t) \<Rightarrow>
               (Inl (if path_exists w t (source r) then InvalidDestination
                     else SourceMissing (source r)), t))"
    by (simp add: copy_append one split: prod.splits sum.splits)
qed

theorem staged_path_and_root_rejection_witness:
  "wf_path (Path ''/x/y'') \<and> is_absolute (Path ''/x/y'')
   \<and> \<not> isl (fst (copy_bind_mount_to_tmp w_ok []
                    \<lparr>source = Path ''/host/cache'', BindMount.destination = Path ''/x/y''\<rparr>
                    (Path ''/tmp/devc_to_docker_abc'')))
   \<and> as_posix (host_path (projr (fst (copy_bind_mount_to_tmp w_ok []
                    \<lparr>source = Path ''/host/cache'', BindMount.destination = Path ''/x/y''\<rparr>
                    (Path ''/tmp/devc_to_docker_abc''))))) = ''/tmp/devc_to_docker_abc/x/y''
   \<and> path_exists w_ok [] (Path ''/host/cache'')
   \<and> is_absolute (Path ''/'') \<and> segments (Path ''/'') = []
   \<and> copy_bind_mounts_to_tmp w_ok []
        ([\<lparr>source = Path ''/host/a'', BindMount.destination = Path ''/a''\<rparr>]
         @ \<lparr>source = Path ''/host/b'', BindMount.destination = Path ''/''\<rparr>
         # [\<lparr>source = Path ''/host/c'', BindMount.destination = Path ''/c''\<rparr>])
        (Path ''/tmp/t'')
      = (Inl InvalidDestination,
         [Fs (Mkdir (Path ''/tmp/t'')) True,
          Fs (Copytree (Path ''/host/a'') (Path ''/tmp/t/a'')) True])"
proof -
  let ?m = "\<lparr>source = Path ''/host/cache'', BindMount.destination = Path ''/x/y''\<rparr>"
  let ?tmp = "Path ''/tmp/devc_to_docker_abc''"
  let ?R = "copy_bind_mount_to_tmp w_ok [] ?m ?tmp"
  let ?r = "\<lparr>source = Path ''/host/b'', BindMount.destination = Path ''/''\<rparr>"
  let ?before = "[\<lparr>source = Path ''/host/a'', BindMount.destination = Path ''/a''\<rparr>]"
  let ?after = "[\<lparr>source = Path ''/host/c'', BindMount.destination = Path ''/c''\<rparr>]"
  note inst = staged_path_and_root_rejection[of ?m w_ok "[]" ?tmp "projr (fst ?R)" "snd ?R" ?r ?before ?after]
  have wf: "wf_path (Path ''/x/y'')" by code_simp
  have ab: "is_absolute (Path ''/x/y'')" by code_simp
  have ok: "\<not> isl (fst ?R)" by code_simp
  then have run: "?R = (Inr (projr (fst ?R)), snd ?R)" by (simp add: prod_eq_iff)
  have ex: "path_exists w_ok [] (Path ''/host/cache'')" by code_simp
  have rt: "is_absolute (Path ''/'')" "segments (Path ''/'') = []" by code_simp+
  from inst wf ab run
  have hp: "host_path (projr (fst ?R))
              = \<lparr>root = root ?tmp, segments = segments ?tmp @ segments (Path ''/x/y'')\<rparr>"
    by simp
  have "as_posix \<lparr>root = root ?tmp, segments = segments ?tmp @ segments (Path ''/x/y'')\<rparr>
          = ''/tmp/devc_to_docker_abc/x/y''" by code_simp
  with hp have s: "as_posix (host_path (projr (fst ?R))) = ''/tmp/devc_to_docker_abc/x/y''" by simp
  from staged_path_and_root_rejection[of ?m w_ok "[]" "Path ''/tmp/t''" "projr (fst ?R)" "snd ?R"
         ?r ?before ?after] rt
  have "copy_bind_mounts_to_tmp w_ok [] (?before @ ?r # ?after) (Path ''/tmp/t'') =
          (case copy_bind_mounts_to_tmp w_ok [] ?before (Path ''/tmp/t'') of
             (Inl e, t) \<Rightarrow> (Inl e, t)
           | (Inr cs, t) \<Rightarrow>
               (Inl (if path_exists w_ok t (source ?r) then InvalidDestination
                     else SourceMissing (source ?r)), t))"
    by simp
  also have "\<dots> = (Inl InvalidDestination,
         [Fs (Mkdir (Path ''/tmp/t'')) True,
          Fs (Copytree (Path ''/host/a'') (Path ''/tmp/t/a'')) True])"
    by code_simp
  finally have rej: "copy_bind_mounts_to_tmp w_ok [] (?before @ ?r # ?after) (Path ''/tmp/t'')
      = (Inl InvalidDestination,
         [Fs (Mkdir (Path ''/tmp/t'')) True,
          Fs (Copytree (Path ''/host/a'') (Path ''/tmp/t/a'')) True])" .
  from wf ab ok s ex rt rej show ?thesis by blast
qed

subsection \<open>Restore\<close>

lemma docker_cmds_append: "docker_cmds (xs @ ys) = docker_cmds xs @ docker_cmds ys"
  by (induction xs rule: docker_cmds.induct) simp_all

lemma restore_Cons:
  "restore_bind_mounts w tr c (spec # copies) =
     (let ok1 = docker_succeeds w tr (rm_cmd c spec);
          tr1 = tr @ [Docker (rm_cmd c spec) ok1]
                   @ (if ok1 then []
                      else [Warning (''could not remove existing '' @ destination_str spec @ '' in '' @ c)]);
          ok2 = docker_succeeds w tr1 (mkdir_cmd c spec);
          tr2 = tr1 @ [Docker (mkdir_cmd c spec) ok2];
          ok3 = docker_succeeds w tr2 (cp_cmd c spec);
          tr3 = tr2 @ [Docker (cp_cmd c spec) ok3]
      in if \<not> ok2 then (Inl (RestoreFailed (parent_str spec) c), tr2)
         else if \<not> ok3 then (Inl (CalledProcessError (''docker'' # cp_cmd c spec)), tr3)
         else restore_bind_mounts w tr3 c copies)"
  by (simp add: run_docker_def Let_def)

lemma restore_trace:
  "restore_bind_mounts w tr c copies = (res, tr') \<Longrightarrow>
     \<exists>new. tr' = tr @ new
       \<and> prefix (docker_cmds new) (restore_cmds c copies)
       \<and> (res = Inr () \<longrightarrow> docker_cmds new = restore_cmds c copies)
       \<and> (\<forall>e. res = Inl e \<longrightarrow>
             (\<exists>spec\<in>set copies. \<exists>pre.
                (new = pre @ [Docker (mkdir_cmd c spec) False] \<and> e = RestoreFailed (parent_str spec) c)
              \<or> (new = pre @ [Docker (cp_cmd c spec) False]
                  \<and> e = CalledProcessError (''docker'' # cp_cmd c spec))))"
proof (induction copies arbitrary: tr res tr')
  case Nil
  then show ?case by (auto simp: restore_cmds_def)
next
  case (Cons spec copies)
  define ok1 where "ok1 = docker_succeeds w tr (rm_cmd c spec)"
  define n1 where "n1 = [Docker (rm_cmd c spec) ok1]
                   @ (if ok1 then []
                      else [Warning (''could not remove existing '' @ destination_str spec @ '' in '' @ c)])"
  define ok2 where "ok2 = docker_succeeds w (tr @ n1) (mkdir_cmd c spec)"
  define n2 where "n2 = n1 @ [Docker (mkdir_cmd c spec) ok2]"
  define ok3 where "ok3 = docker_succeeds w (tr @ n2) (cp_cmd c spec)"
  define n3 where "n3 = n2 @ [Docker (cp_cmd c spec) ok3]"
  have eq: "restore_bind_mounts w tr c (spec # copies) =
      (if \<not> ok2 then (Inl (RestoreFailed (parent_str spec) c), tr @ n2)
       else if \<not> ok3 then (Inl (CalledProcessError (''docker'' # cp_cmd c spec)), tr @ n3)
       else restore_bind_mounts w (tr @ n3) c copies)"
    unfolding restore_Cons Let_def ok1_def n1_def ok2_def n2_def ok3_def n3_def by simp
  have c1: "docker_cmds n1 = [rm_cmd c spec]" by (simp add: n1_def)
  have c2: "docker_cmds n2 = [rm_cmd c spec, mkdir_cmd c spec]" by (simp add: n2_def docker_cmds_append c1)
  have c3: "docker_cmds n3 = [rm_cmd c spec, mkdir_cmd c spec, cp_cmd c spec]"
    by (simp add: n3_def docker_cmds_append c2)
  have rc: "restore_cmds c (spec # copies) = [rm_cmd c spec, mkdir_cmd c spec, cp_cmd c spec] @ restore_cmds c copies"
    by (simp add: restore_cmds_def)
  show ?case
  proof (cases ok2)
    case False
    with Cons.prems eq have r: "res = Inl (RestoreFailed (parent_str spec) c)" "tr' = tr @ n2" by simp_all
    have "n2 = n1 @ [Docker (mkdir_cmd c spec) False]" using False by (simp add: n2_def)
    with r c2 rc show ?thesis
      by (intro exI[of _ n2]) (auto simp: prefix_def)
  next
    case ok2: True
    show ?thesis
    proof (cases ok3)
      case False
      with Cons.prems eq ok2 have r: "res = Inl (CalledProcessError (''docker'' # cp_cmd c spec))" "tr' = tr @ n3"
        by simp_all
      have "n3 = n2 @ [Docker (cp_cmd c spec) False]" using False by (simp add: n3_def)
      with r c3 rc show ?thesis
        by (intro exI[of _ n3]) (auto simp: prefix_def)
    next
      case True
      with Cons.prems eq ok2 have "restore_bind_mounts w (tr @ n3) c copies = (res, tr')" by simp
      from Cons.IH[OF this] obtain new where
        n: "tr' = (tr @ n3) @ new" and
        p: "prefix (docker_cmds new) (restore_cmds c copies)" and
        s: "res = Inr () \<longrightarrow> docker_cmds new = restore_cmds c copies" and
        f: "\<forall>e. res = Inl e \<longrightarrow>
             (\<exists>spec\<in>set copies. \<exists>pre.
                (new = pre @ [Docker (mkdir_cmd c spec) False] \<and> e = RestoreFailed (parent_str spec) c)
              \<or> (new = pre @ [Docker (cp_cmd c spec) False]
                  \<and> e = CalledProcessError (''docker'' # cp_cmd c spec)))"
        by blast
      have f': "\<forall>e. res = Inl e \<longrightarrow>
             (\<exists>sp\<in>set (spec # copies). \<exists>pre.
                (n3 @ new = pre @ [Docker (mkdir_cmd c sp) False] \<and> e = RestoreFailed (parent_str sp) c)
              \<or> (n3 @ new = pre @ [Docker (cp_cmd c sp) False]
                  \<and> e = CalledProcessError (''docker'' # cp_cmd c sp)))"
      proof (intro allI impI)
        fix e assume "res = Inl e"
        with f obtain sp pre where sp: "sp \<in> set copies"
          and d: "(new = pre @ [Docker (mkdir_cmd c sp) False] \<and> e = RestoreFailed (parent_str sp) c)
              \<or> (new = pre @ [Docker (cp_cmd c sp) False]
                  \<and> e = CalledProcessError (''docker'' # cp_cmd c sp))" by blast
        from d have "(n3 @ new = (n3 @ pre) @ [Docker (mkdir_cmd c sp) False] \<and> e = RestoreFailed (parent_str sp) c)
              \<or> (n3 @ new = (n3 @ pre) @ [Docker (cp_cmd c sp) False]
                  \<and> e = CalledProcessError (''docker'' # cp_cmd c sp))" by auto
        with sp show "\<exists>sp\<in>set (spec # copies). \<exists>pre.
                (n3 @ new = pre @ [Docker (mkdir_cmd c sp) False] \<and> e = RestoreFailed (parent_str sp) c)
              \<or> (n3 @ new = pre @ [Docker (cp_cmd c sp) False]
                  \<and> e = CalledProcessError (''docker'' # cp_cmd c sp))"
          by (intro bexI[of _ sp] exI[of _ "n3 @ pre"]) auto
      qed
      have "tr' = tr @ (n3 @ new)" using n by simp
      moreover have "prefix (docker_cmds (n3 @ new)) (restore_cmds c (spec # copies))"
        using p by (simp add: docker_cmds_append c3 rc)
      moreover have "res = Inr () \<longrightarrow> docker_cmds (n3 @ new) = restore_cmds c (spec # copies)"
        using s by (simp add: docker_cmds_append c3 rc)
      ultimately show ?thesis using f' by blast
    qed
  qed
qed

lemma restore_trace_prefix:
  "restore_bind_mounts w tr c copies = (res, tr') \<Longrightarrow> prefix tr tr'"
  using restore_events by (fastforce simp: prefix_def)

lemma restore_first:
  assumes "restore_bind_mounts w tr c (spec # rest) = (res, tr')"
  shows "\<exists>b. prefix (tr @ [Docker (rm_cmd c spec) (docker_succeeds w tr (rm_cmd c spec))]
                  @ (if docker_succeeds w tr (rm_cmd c spec) then []
                     else [Warning (''could not remove existing '' @ destination_str spec @ '' in '' @ c)])
                  @ [Docker (mkdir_cmd c spec) b]) tr'"
proof -
  define ok1 where "ok1 = docker_succeeds w tr (rm_cmd c spec)"
  define n1 where "n1 = [Docker (rm_cmd c spec) ok1]
                   @ (if ok1 then []
                      else [Warning (''could not remove existing '' @ destination_str spec @ '' in '' @ c)])"
  define ok2 where "ok2 = docker_succeeds w (tr @ n1) (mkdir_cmd c spec)"
  define n2 where "n2 = n1 @ [Docker (mkdir_cmd c spec) ok2]"
  define ok3 where "ok3 = docker_succeeds w (tr @ n2) (cp_cmd c spec)"
  define n3 where "n3 = n2 @ [Docker (cp_cmd c spec) ok3]"
  have eq: "restore_bind_mounts w tr c (spec # rest) =
      (if \<not> ok2 then (Inl (RestoreFailed (parent_str spec) c), tr @ n2)
       else if \<not> ok3 then (Inl (CalledProcessError (''docker'' # cp_cmd c spec)), tr @ n3)
       else restore_bind_mounts w (tr @ n3) c rest)"
    unfolding restore_Cons Let_def ok1_def n1_def ok2_def n2_def ok3_def n3_def by simp
  have "prefix (tr @ n2) tr'"
  proof (cases "\<not> ok2")
    case True
    with assms eq show ?thesis by simp
  next
    case ok2: False
    show ?thesis
    proof (cases "\<not> ok3")
      case True
      with assms eq ok2 have "tr' = tr @ n3" by simp
      then show ?thesis by (simp add: n3_def)
    next
      case False
      with assms eq ok2 have "restore_bind_mounts w (tr @ n3) c rest = (res, tr')" by simp
      from restore_trace_prefix[OF this] have "prefix (tr @ n3) tr'" .
      then show ?thesis by (auto simp: n3_def prefix_def)
    qed
  qed
  then show ?thesis unfolding n2_def n1_def ok1_def by auto
qed

lemma restore_append:
  "restore_bind_mounts w tr c (xs @ ys) =
     (case restore_bind_mounts w tr c xs of
        (Inl e, t) \<Rightarrow> (Inl e, t)
      | (Inr u, t) \<Rightarrow> restore_bind_mounts w t c ys)"
proof (induction xs arbitrary: tr)
  case Nil
  then show ?case by simp
next
  case (Cons x xs)
  show ?case
    unfolding append_Cons restore_Cons Let_def
    by (simp add: Cons.IH)
qed

lemma cmd_distinct:
  "rm_cmd c a \<noteq> mkdir_cmd c b" "rm_cmd c a \<noteq> cp_cmd c b" "mkdir_cmd c a \<noteq> cp_cmd c b"
  "mkdir_cmd c a \<noteq> rm_cmd c b" "cp_cmd c a \<noteq> rm_cmd c b" "cp_cmd c a \<noteq> mkdir_cmd c b"
  by (simp_all add: rm_cmd_def mkdir_cmd_def cp_cmd_def)

lemma mkdir_cmd_parent: "mkdir_cmd c a = mkdir_cmd c b \<Longrightarrow> parent_str a = parent_str b"
  by (simp add: mkdir_cmd_def)

text \<open>A failed command of the restore step other than a removal is its last effect, and fatal.\<close>

lemma restore_fatal:
  "restore_bind_mounts w tr c copies = (res, tr @ new) \<Longrightarrow>
     (Docker (mkdir_cmd c spec) False \<in> set new \<longrightarrow>
        last new = Docker (mkdir_cmd c spec) False \<and> res = Inl (RestoreFailed (parent_str spec) c))
     \<and> (Docker (cp_cmd c spec) False \<in> set new \<longrightarrow>
        last new = Docker (cp_cmd c spec) False
        \<and> res = Inl (CalledProcessError (''docker'' # cp_cmd c spec)))"
proof (induction copies arbitrary: tr res new)
  case Nil
  then show ?case by simp
next
  case (Cons s copies)
  define ok1 where "ok1 = docker_succeeds w tr (rm_cmd c s)"
  define n1 where "n1 = [Docker (rm_cmd c s) ok1]
                   @ (if ok1 then []
                      else [Warning (''could not remove existing '' @ destination_str s @ '' in '' @ c)])"
  define ok2 where "ok2 = docker_succeeds w (tr @ n1) (mkdir_cmd c s)"
  define n2 where "n2 = n1 @ [Docker (mkdir_cmd c s) ok2]"
  define ok3 where "ok3 = docker_succeeds w (tr @ n2) (cp_cmd c s)"
  define n3 where "n3 = n2 @ [Docker (cp_cmd c s) ok3]"
  have eq: "restore_bind_mounts w tr c (s # copies) =
      (if \<not> ok2 then (Inl (RestoreFailed (parent_str s) c), tr @ n2)
       else if \<not> ok3 then (Inl (CalledProcessError (''docker'' # cp_cmd c s)), tr @ n3)
       else restore_bind_mounts w (tr @ n3) c copies)"
    unfolding restore_Cons Let_def ok1_def n1_def ok2_def n2_def ok3_def n3_def by simp
  have n1m: "Docker (mkdir_cmd c spec) False \<notin> set n1" "Docker (cp_cmd c spec) False \<notin> set n1"
    by (auto simp: n1_def cmd_distinct)
  show ?case
  proof (cases ok2)
    case False
    with Cons.prems eq have r: "res = Inl (RestoreFailed (parent_str s) c)" "new = n2" by simp_all
    have n2: "n2 = n1 @ [Docker (mkdir_cmd c s) False]" using False by (simp add: n2_def)
    show ?thesis
      using n1m r unfolding r(2) n2
      by (auto simp: cmd_distinct dest: mkdir_cmd_parent)
  next
    case ok2: True
    show ?thesis
    proof (cases ok3)
      case False
      with Cons.prems eq ok2 have r: "res = Inl (CalledProcessError (''docker'' # cp_cmd c s))" "new = n3"
        by simp_all
      have n3: "n3 = n1 @ [Docker (mkdir_cmd c s) True, Docker (cp_cmd c s) False]"
        using False ok2 by (simp add: n3_def n2_def)
      show ?thesis
        using n1m r unfolding r(2) n3
        by (auto simp: cmd_distinct)
    next
      case True
      have n3: "n3 = n1 @ [Docker (mkdir_cmd c s) True, Docker (cp_cmd c s) True]"
        using True ok2 by (simp add: n3_def n2_def)
      from Cons.prems eq ok2 True have run: "restore_bind_mounts w (tr @ n3) c copies = (res, tr @ new)"
        by simp
      from restore_trace_prefix[OF run] obtain new' where new': "new = n3 @ new'"
        by (auto simp: prefix_def)
      with run have "restore_bind_mounts w (tr @ n3) c copies = (res, (tr @ n3) @ new')" by simp
      note ih = Cons.IH[OF this]
      have n3m: "Docker (mkdir_cmd c spec) False \<notin> set n3" "Docker (cp_cmd c spec) False \<notin> set n3"
        using n1m by (auto simp: n3)
      have a: "Docker (mkdir_cmd c spec) False \<in> set new \<longrightarrow>
                 last new = Docker (mkdir_cmd c spec) False
                 \<and> res = Inl (RestoreFailed (parent_str spec) c)"
      proof
        assume "Docker (mkdir_cmd c spec) False \<in> set new"
        with n3m new' have m: "Docker (mkdir_cmd c spec) False \<in> set new'" by auto
        then have "new' \<noteq> []" by auto
        with ih m new' show "last new = Docker (mkdir_cmd c spec) False
                              \<and> res = Inl (RestoreFailed (parent_str spec) c)" by simp
      qed
      have b: "Docker (cp_cmd c spec) False \<in> set new \<longrightarrow>
                 last new = Docker (cp_cmd c spec) False
                 \<and> res = Inl (CalledProcessError (''docker'' # cp_cmd c spec))"
      proof
        assume "Docker (cp_cmd c spec) False \<in> set new"
        with n3m new' have m: "Docker (cp_cmd c spec) False \<in> set new'" by auto
        then have "new' \<noteq> []" by auto
        with ih m new' show "last new = Docker (cp_cmd c spec) False
                              \<and> res = Inl (CalledProcessError (''docker'' # cp_cmd c spec))" by simp
      qed
      from a b show ?thesis by (rule conjI)
    qed
  qed
qed

text \<open>
  Claim C6. The restore step handles the CopySpecs in their order and issues, for each,
  the removal of the destination inside the disposable container, then the creation of
  the destination's parent directory, then the copy of the staged host path to the parent
  path: the commands of any run are a prefix of that sequence, and all of it when the step
  succeeds. A failing creation of the parent directory is fatal: it is the last effect of
  the step, which fails with \<open>RestoreFailed\<close>; a failing copy is the last effect as well,
  and the step fails with the error of the command; the step succeeds exactly when no
  creation and no copy fails, whatever the removals did. For every CopySpec, at any
  position of the list, once the CopySpecs before it are restored, the step issues the
  removal, prints a warning if the removal fails and goes on in either case, issues the
  creation of the parent directory and stops with \<open>RestoreFailed\<close> if it fails, then
  issues the copy and stops with its error if it fails, and otherwise goes on with the
  CopySpecs after it.
\<close>

theorem restore_order_and_severity:
  assumes "restore_bind_mounts w tr temp_container copies = (res, tr')"
  shows "\<exists>new. tr' = tr @ new
       \<and> prefix (docker_cmds new)
                (concat (map (\<lambda>spec. [rm_cmd temp_container spec, mkdir_cmd temp_container spec,
                                       cp_cmd temp_container spec]) copies))
       \<and> (res = Inr () \<longrightarrow>
            docker_cmds new
              = concat (map (\<lambda>spec. [rm_cmd temp_container spec, mkdir_cmd temp_container spec,
                                      cp_cmd temp_container spec]) copies))
       \<and> (\<forall>e. res = Inl e \<longrightarrow>
             (\<exists>spec\<in>set copies. \<exists>pre.
                (new = pre @ [Docker (mkdir_cmd temp_container spec) False]
                 \<and> e = RestoreFailed (parent_str spec) temp_container)
              \<or> (new = pre @ [Docker (cp_cmd temp_container spec) False]
                  \<and> e = CalledProcessError (''docker'' # cp_cmd temp_container spec))))
       \<and> (\<forall>spec rest. copies = spec # rest \<longrightarrow>
             (\<exists>b. prefix ([Docker (rm_cmd temp_container spec)
                              (docker_succeeds w tr (rm_cmd temp_container spec))]
                  @ (if docker_succeeds w tr (rm_cmd temp_container spec) then []
                     else [Warning (''could not remove existing '' @ destination_str spec
                                    @ '' in '' @ temp_container)])
                  @ [Docker (mkdir_cmd temp_container spec) b]) new))
       \<and> (\<forall>spec. Docker (mkdir_cmd temp_container spec) False \<in> set new \<longrightarrow>
             last new = Docker (mkdir_cmd temp_container spec) False
             \<and> res = Inl (RestoreFailed (parent_str spec) temp_container))
       \<and> (\<forall>spec. Docker (cp_cmd temp_container spec) False \<in> set new \<longrightarrow>
             last new = Docker (cp_cmd temp_container spec) False
             \<and> res = Inl (CalledProcessError (''docker'' # cp_cmd temp_container spec)))
       \<and> (res = Inr () \<longleftrightarrow>
             (\<forall>spec. Docker (mkdir_cmd temp_container spec) False \<notin> set new
                    \<and> Docker (cp_cmd temp_container spec) False \<notin> set new))
       \<and> (\<forall>before spec after. copies = before @ spec # after \<longrightarrow>
             (res, tr') =
               (case restore_bind_mounts w tr temp_container before of
                  (Inl e, t) \<Rightarrow> (Inl e, t)
                | (Inr u, t) \<Rightarrow>
                    (let ok1 = docker_succeeds w t (rm_cmd temp_container spec);
                         t1 = t @ [Docker (rm_cmd temp_container spec) ok1]
                                @ (if ok1 then []
                                   else [Warning (''could not remove existing ''
                                                  @ destination_str spec @ '' in ''
                                                  @ temp_container)]);
                         ok2 = docker_succeeds w t1 (mkdir_cmd temp_container spec);
                         t2 = t1 @ [Docker (mkdir_cmd temp_container spec) ok2];
                         ok3 = docker_succeeds w t2 (cp_cmd temp_container spec);
                         t3 = t2 @ [Docker (cp_cmd temp_container spec) ok3]
                     in if \<not> ok2
                        then (Inl (RestoreFailed (parent_str spec) temp_container), t2)
                        else if \<not> ok3
                        then (Inl (CalledProcessError (''docker'' # cp_cmd temp_container spec)), t3)
                        else restore_bind_mounts w t3 temp_container after)))"
proof -
  from restore_trace[OF assms] obtain new where
    n: "tr' = tr @ new" and
    rest: "prefix (docker_cmds new) (restore_cmds temp_container copies)"
      "res = Inr () \<longrightarrow> docker_cmds new = restore_cmds temp_container copies" and
    fl: "\<forall>e. res = Inl e \<longrightarrow>
             (\<exists>spec\<in>set copies. \<exists>pre.
                (new = pre @ [Docker (mkdir_cmd temp_container spec) False]
                 \<and> e = RestoreFailed (parent_str spec) temp_container)
              \<or> (new = pre @ [Docker (cp_cmd temp_container spec) False]
                  \<and> e = CalledProcessError (''docker'' # cp_cmd temp_container spec)))"
    by blast
  have first: "\<forall>spec rest. copies = spec # rest \<longrightarrow>
             (\<exists>b. prefix ([Docker (rm_cmd temp_container spec)
                              (docker_succeeds w tr (rm_cmd temp_container spec))]
                  @ (if docker_succeeds w tr (rm_cmd temp_container spec) then []
                     else [Warning (''could not remove existing '' @ destination_str spec
                                    @ '' in '' @ temp_container)])
                  @ [Docker (mkdir_cmd temp_container spec) b]) new)"
  proof (intro allI impI)
    fix spec rest assume "copies = spec # rest"
    with assms have "restore_bind_mounts w tr temp_container (spec # rest) = (res, tr')" by simp
    from restore_first[OF this] n
    show "\<exists>b. prefix ([Docker (rm_cmd temp_container spec)
                              (docker_succeeds w tr (rm_cmd temp_container spec))]
                  @ (if docker_succeeds w tr (rm_cmd temp_container spec) then []
                     else [Warning (''could not remove existing '' @ destination_str spec
                                    @ '' in '' @ temp_container)])
                  @ [Docker (mkdir_cmd temp_container spec) b]) new"
      by (auto simp: prefix_def)
  qed
  from assms n have run: "restore_bind_mounts w tr temp_container copies = (res, tr @ new)" by simp
  have fm: "\<forall>spec. Docker (mkdir_cmd temp_container spec) False \<in> set new \<longrightarrow>
             last new = Docker (mkdir_cmd temp_container spec) False
             \<and> res = Inl (RestoreFailed (parent_str spec) temp_container)"
    using restore_fatal[OF run] by blast
  have fc: "\<forall>spec. Docker (cp_cmd temp_container spec) False \<in> set new \<longrightarrow>
             last new = Docker (cp_cmd temp_container spec) False
             \<and> res = Inl (CalledProcessError (''docker'' # cp_cmd temp_container spec))"
    using restore_fatal[OF run] by blast
  have iff: "res = Inr () \<longleftrightarrow>
             (\<forall>spec. Docker (mkdir_cmd temp_container spec) False \<notin> set new
                    \<and> Docker (cp_cmd temp_container spec) False \<notin> set new)"
  proof
    assume "res = Inr ()"
    with fm fc show "\<forall>spec. Docker (mkdir_cmd temp_container spec) False \<notin> set new
                    \<and> Docker (cp_cmd temp_container spec) False \<notin> set new"
      by auto
  next
    assume a: "\<forall>spec. Docker (mkdir_cmd temp_container spec) False \<notin> set new
                    \<and> Docker (cp_cmd temp_container spec) False \<notin> set new"
    show "res = Inr ()"
    proof (cases res)
      case (Inl e)
      with fl obtain spec pre where
        "new = pre @ [Docker (mkdir_cmd temp_container spec) False]
         \<or> new = pre @ [Docker (cp_cmd temp_container spec) False]" by blast
      then have "Docker (mkdir_cmd temp_container spec) False \<in> set new
                 \<or> Docker (cp_cmd temp_container spec) False \<in> set new" by auto
      with a show ?thesis by blast
    next
      case (Inr u)
      then show ?thesis by simp
    qed
  qed
  have pos: "\<forall>before spec after. copies = before @ spec # after \<longrightarrow>
             (res, tr') =
               (case restore_bind_mounts w tr temp_container before of
                  (Inl e, t) \<Rightarrow> (Inl e, t)
                | (Inr u, t) \<Rightarrow>
                    (let ok1 = docker_succeeds w t (rm_cmd temp_container spec);
                         t1 = t @ [Docker (rm_cmd temp_container spec) ok1]
                                @ (if ok1 then []
                                   else [Warning (''could not remove existing ''
                                                  @ destination_str spec @ '' in ''
                                                  @ temp_container)]);
                         ok2 = docker_succeeds w t1 (mkdir_cmd temp_container spec);
                         t2 = t1 @ [Docker (mkdir_cmd temp_container spec) ok2];
                         ok3 = docker_succeeds w t2 (cp_cmd temp_container spec);
                         t3 = t2 @ [Docker (cp_cmd temp_container spec) ok3]
                     in if \<not> ok2
                        then (Inl (RestoreFailed (parent_str spec) temp_container), t2)
                        else if \<not> ok3
                        then (Inl (CalledProcessError (''docker'' # cp_cmd temp_container spec)), t3)
                        else restore_bind_mounts w t3 temp_container after))"
  proof (intro allI impI)
    fix before spec after assume c: "copies = before @ spec # after"
    show "(res, tr') =
               (case restore_bind_mounts w tr temp_container before of
                  (Inl e, t) \<Rightarrow> (Inl e, t)
                | (Inr u, t) \<Rightarrow>
                    (let ok1 = docker_succeeds w t (rm_cmd temp_container spec);
                         t1 = t @ [Docker (rm_cmd temp_container spec) ok1]
                                @ (if ok1 then []
                                   else [Warning (''could not remove existing ''
                                                  @ destination_str spec @ '' in ''
                                                  @ temp_container)]);
                         ok2 = docker_succeeds w t1 (mkdir_cmd temp_container spec);
                         t2 = t1 @ [Docker (mkdir_cmd temp_container spec) ok2];
                         ok3 = docker_succeeds w t2 (cp_cmd temp_container spec);
                         t3 = t2 @ [Docker (cp_cmd temp_container spec) ok3]
                     in if \<not> ok2
                        then (Inl (RestoreFailed (parent_str spec) temp_container), t2)
                        else if \<not> ok3
                        then (Inl (CalledProcessError (''docker'' # cp_cmd temp_container spec)), t3)
                        else restore_bind_mounts w t3 temp_container after))"
      unfolding assms[symmetric] c restore_append[of w tr temp_container before "spec # after"]
        restore_Cons
      by (rule refl)
  qed
  from n rest fl first fm fc iff pos show ?thesis unfolding restore_cmds_def by blast
qed

theorem restore_order_and_severity_witness:
  "fst (restore_bind_mounts w_rm_fails [] ''tmpc''
          [\<lparr>CopySpec.destination = Path ''/workspace/app'',
            host_path = Path ''/tmp/devc_to_docker_abc/workspace/app''\<rparr>]) = Inr ()
   \<and> docker_cmds (snd (restore_bind_mounts w_rm_fails [] ''tmpc''
          [\<lparr>CopySpec.destination = Path ''/workspace/app'',
            host_path = Path ''/tmp/devc_to_docker_abc/workspace/app''\<rparr>]))
       = [[''exec'', ''tmpc'', ''rm'', ''-rf'', ''/workspace/app''],
          [''exec'', ''tmpc'', ''mkdir'', ''-p'', ''/workspace''],
          [''cp'', ''/tmp/devc_to_docker_abc/workspace/app'', ''tmpc:/workspace'']]
   \<and> \<not> docker_succeeds w_rm_fails [] [''exec'', ''tmpc'', ''rm'', ''-rf'', ''/workspace/app'']
   \<and> take 3 (snd (restore_bind_mounts w_rm_fails [] ''tmpc''
          [\<lparr>CopySpec.destination = Path ''/workspace/app'',
            host_path = Path ''/tmp/devc_to_docker_abc/workspace/app''\<rparr>]))
       = [Docker [''exec'', ''tmpc'', ''rm'', ''-rf'', ''/workspace/app''] False,
          Warning ''could not remove existing /workspace/app in tmpc'',
          Docker [''exec'', ''tmpc'', ''mkdir'', ''-p'', ''/workspace''] True]
   \<and> Docker [''exec'', ''tmpc'', ''mkdir'', ''-p'', ''/workspace''] False
       \<in> set (snd (restore_bind_mounts w_mkdir_fails [] ''tmpc''
          [\<lparr>CopySpec.destination = Path ''/workspace/app'',
            host_path = Path ''/tmp/devc_to_docker_abc/workspace/app''\<rparr>,
           \<lparr>CopySpec.destination = Path ''/x/y'',
            host_path = Path ''/tmp/devc_to_docker_abc/x/y''\<rparr>]))
   \<and> fst (restore_bind_mounts w_mkdir_fails [] ''tmpc''
          [\<lparr>CopySpec.destination = Path ''/workspace/app'',
            host_path = Path ''/tmp/devc_to_docker_abc/workspace/app''\<rparr>,
           \<lparr>CopySpec.destination = Path ''/x/y'',
            host_path = Path ''/tmp/devc_to_docker_abc/x/y''\<rparr>])
       = Inl (RestoreFailed ''/workspace'' ''tmpc'')
   \<and> last (snd (restore_bind_mounts w_mkdir_fails [] ''tmpc''
          [\<lparr>CopySpec.destination = Path ''/workspace/app'',
            host_path = Path ''/tmp/devc_to_docker_abc/workspace/app''\<rparr>,
           \<lparr>CopySpec.destination = Path ''/x/y'',
            host_path = Path ''/tmp/devc_to_docker_abc/x/y''\<rparr>]))
       = Docker [''exec'', ''tmpc'', ''mkdir'', ''-p'', ''/workspace''] False"
proof -
  let ?s = "\<lparr>CopySpec.destination = Path ''/workspace/app'',
            host_path = Path ''/tmp/devc_to_docker_abc/workspace/app''\<rparr>"
  let ?s2 = "\<lparr>CopySpec.destination = Path ''/x/y'',
            host_path = Path ''/tmp/devc_to_docker_abc/x/y''\<rparr>"
  let ?R = "restore_bind_mounts w_rm_fails [] ''tmpc'' [?s]"
  let ?F = "restore_bind_mounts w_mkdir_fails [] ''tmpc'' [?s, ?s2]"
  have r: "?R = (fst ?R, snd ?R)" by simp
  have ok: "fst ?R = Inr ()" by code_simp
  have rm: "rm_cmd ''tmpc'' ?s = [''exec'', ''tmpc'', ''rm'', ''-rf'', ''/workspace/app'']" by code_simp
  have mk: "mkdir_cmd ''tmpc'' ?s = [''exec'', ''tmpc'', ''mkdir'', ''-p'', ''/workspace'']" by code_simp
  have cp: "cp_cmd ''tmpc'' ?s = [''cp'', ''/tmp/devc_to_docker_abc/workspace/app'', ''tmpc:/workspace'']"
    by code_simp
  have ds: "destination_str ?s = ''/workspace/app''" by code_simp
  have ps: "parent_str ?s = ''/workspace''" by code_simp
  have f: "\<not> docker_succeeds w_rm_fails [] [''exec'', ''tmpc'', ''rm'', ''-rf'', ''/workspace/app'']"
    by code_simp
  from restore_order_and_severity[OF r] obtain new where
    n: "snd ?R = [] @ new" and
    c: "fst ?R = Inr () \<longrightarrow>
          docker_cmds new = concat (map (\<lambda>spec. [rm_cmd ''tmpc'' spec, mkdir_cmd ''tmpc'' spec,
                                                  cp_cmd ''tmpc'' spec]) [?s])" and
    p: "\<forall>spec rest. [?s] = spec # rest \<longrightarrow>
             (\<exists>b. prefix ([Docker (rm_cmd ''tmpc'' spec)
                              (docker_succeeds w_rm_fails [] (rm_cmd ''tmpc'' spec))]
                  @ (if docker_succeeds w_rm_fails [] (rm_cmd ''tmpc'' spec) then []
                     else [Warning (''could not remove existing '' @ destination_str spec
                                    @ '' in '' @ ''tmpc'')])
                  @ [Docker (mkdir_cmd ''tmpc'' spec) b]) new)"
    by blast
  from c ok n have cmds: "docker_cmds (snd ?R) = [[''exec'', ''tmpc'', ''rm'', ''-rf'', ''/workspace/app''],
          [''exec'', ''tmpc'', ''mkdir'', ''-p'', ''/workspace''],
          [''cp'', ''/tmp/devc_to_docker_abc/workspace/app'', ''tmpc:/workspace'']]"
    by (simp add: rm mk cp)
  from p obtain b where
    "prefix ([Docker (rm_cmd ''tmpc'' ?s) (docker_succeeds w_rm_fails [] (rm_cmd ''tmpc'' ?s))]
                  @ (if docker_succeeds w_rm_fails [] (rm_cmd ''tmpc'' ?s) then []
                     else [Warning (''could not remove existing '' @ destination_str ?s
                                    @ '' in '' @ ''tmpc'')])
                  @ [Docker (mkdir_cmd ''tmpc'' ?s) b]) new"
    by blast
  with f have pre: "prefix [Docker [''exec'', ''tmpc'', ''rm'', ''-rf'', ''/workspace/app''] False,
          Warning ''could not remove existing /workspace/app in tmpc'',
          Docker [''exec'', ''tmpc'', ''mkdir'', ''-p'', ''/workspace''] b] (snd ?R)"
    using n by (simp add: rm mk ds)
  then obtain zs where z: "snd ?R = [Docker [''exec'', ''tmpc'', ''rm'', ''-rf'', ''/workspace/app''] False,
          Warning ''could not remove existing /workspace/app in tmpc'',
          Docker [''exec'', ''tmpc'', ''mkdir'', ''-p'', ''/workspace''] b] @ zs"
    by (auto simp: prefix_def)
  have "snd ?R ! 2 = Docker [''exec'', ''tmpc'', ''mkdir'', ''-p'', ''/workspace''] True" by code_simp
  with z have "b = True" by simp
  with z have t: "take 3 (snd ?R) = [Docker [''exec'', ''tmpc'', ''rm'', ''-rf'', ''/workspace/app''] False,
          Warning ''could not remove existing /workspace/app in tmpc'',
          Docker [''exec'', ''tmpc'', ''mkdir'', ''-p'', ''/workspace''] True]"
    by simp
  have rf: "?F = (fst ?F, snd ?F)" by simp
  have mem: "Docker [''exec'', ''tmpc'', ''mkdir'', ''-p'', ''/workspace''] False \<in> set (snd ?F)"
    by code_simp
  from restore_order_and_severity[OF rf] obtain new2 where
    n2: "snd ?F = [] @ new2" and
    m2: "\<forall>spec. Docker (mkdir_cmd ''tmpc'' spec) False \<in> set new2 \<longrightarrow>
             last new2 = Docker (mkdir_cmd ''tmpc'' spec) False
             \<and> fst ?F = Inl (RestoreFailed (parent_str spec) ''tmpc'')"
    by blast
  from mem n2 have "Docker (mkdir_cmd ''tmpc'' ?s) False \<in> set new2" by (simp add: mk)
  with m2 have "last new2 = Docker (mkdir_cmd ''tmpc'' ?s) False
             \<and> fst ?F = Inl (RestoreFailed (parent_str ?s) ''tmpc'')" by blast
  with n2 have fatal: "fst ?F = Inl (RestoreFailed ''/workspace'' ''tmpc'')"
    "last (snd ?F) = Docker [''exec'', ''tmpc'', ''mkdir'', ''-p'', ''/workspace''] False"
    by (simp_all add: mk ps)
  from ok cmds f t mem fatal show ?thesis by blast
qed

end
